theory Spec2Isabelle
  imports Main
begin

text \<open>
  A model of the streaming session bridge of the Ovrlrd server: the stream-json handler and
  the turn of \<open>services/claude-stream.ts\<close>, the loop of \<open>services/claude.ts\<close>, and
  the streaming callbacks and post-stream processing of \<open>routes/chat.ts\<close>. Functions
  keep their names; a field is prefixed where two records have a field of the same name
  or the name is taken (\<open>msg_type\<close>, \<open>block_text\<close>, \<open>state_currentSegment\<close>,
  \<open>result_sessionId\<close>, \<open>conv_id\<close>).
\<close>

section \<open>Strings\<close>

text \<open>
  A JavaScript string is modelled as a \<^typ>\<open>string\<close>: the list of its code units, for
  the code units below 256. \<open>String.prototype.trim\<close> removes the white space and line
  terminators at both ends; in that range these are TAB, LF, VT, FF, CR, SPACE and NBSP.
\<close>

definition js_ws :: "char \<Rightarrow> bool" where
  "js_ws c = (c = CHR 0x09 \<or> c = CHR 0x0A \<or> c = CHR 0x0B \<or> c = CHR 0x0C \<or> c = CHR 0x0D
     \<or> c = CHR 0x20 \<or> c = CHR 0xA0)"

definition trim :: "string \<Rightarrow> string" where
  "trim s = rev (dropWhile js_ws (rev (dropWhile js_ws s)))"

text \<open>Truthiness of an optional string: present and not empty.\<close>

fun truthy :: "string option \<Rightarrow> bool" where
  "truthy None = False"
| "truthy (Some s) = (s \<noteq> [])"

text \<open>\<open>x || d\<close> for an optional string \<open>x\<close>.\<close>

fun or_else :: "string option \<Rightarrow> string \<Rightarrow> string" where
  "or_else None d = d"
| "or_else (Some s) d = (if s = [] then d else s)"

text \<open>
  The regular expression \<open>/<local-command-stdout>([\s\S]*?)<\/local-command-stdout>/\<close>:
  the leftmost opening tag, then the shortest text up to a closing tag. \<open>after_first p s\<close>
  is what follows the first occurrence of \<open>p\<close> in \<open>s\<close>, \<open>before_first p s\<close> what
  precedes it.
\<close>

fun strip_prefix :: "string \<Rightarrow> string \<Rightarrow> string option" where
  "strip_prefix [] s = Some s"
| "strip_prefix (p # ps) [] = None"
| "strip_prefix (p # ps) (c # cs) = (if p = c then strip_prefix ps cs else None)"

fun after_first :: "string \<Rightarrow> string \<Rightarrow> string option" where
  "after_first p [] = strip_prefix p []"
| "after_first p (c # cs) =
     (case strip_prefix p (c # cs) of Some r \<Rightarrow> Some r | None \<Rightarrow> after_first p cs)"

fun before_first :: "string \<Rightarrow> string \<Rightarrow> string option" where
  "before_first p [] = (case strip_prefix p [] of Some r \<Rightarrow> Some [] | None \<Rightarrow> None)"
| "before_first p (c # cs) =
     (case strip_prefix p (c # cs) of
        Some r \<Rightarrow> Some []
      | None \<Rightarrow> (case before_first p cs of Some b \<Rightarrow> Some (c # b) | None \<Rightarrow> None))"

definition match_command_stdout :: "string \<Rightarrow> string option" where
  "match_command_stdout content =
     (case after_first ''<local-command-stdout>'' content of
        None \<Rightarrow> None
      | Some r \<Rightarrow> before_first ''</local-command-stdout>'' r)"

section \<open>The stream-json data model\<close>

text \<open>
  \<open>tool_input\<close> is a JSON object; its type is left open (\<open>'i\<close>), and
  \<open>JSON.stringify\<close> on it is a parameter of the functions that serialise it.
\<close>

record 'i PermissionDenial =
  tool_name :: string
  tool_use_id :: string
  tool_input :: 'i

record ContentBlock =
  block_type :: string
  block_text :: "string option"
  block_name :: "string option"

datatype content = Blocks "ContentBlock list" | Str string

record Message =
  role :: "string option"
  content :: "content"

record 'i StreamMessage =
  msg_type :: string
  subtype :: "string option"
  message :: "Message option"
  result :: "string option"
  session_id :: "string option"
  is_error :: "bool option"
  permission_denials :: "'i PermissionDenial list option"

text \<open>
  The callbacks a session holds are supplied by the caller. A call of one of them is
  recorded as a value of \<open>callback\<close>; the caller's callbacks are applied to these
  values in order.
\<close>

datatype 'i callback =
    OnChunk string
  | OnSegmentEnd string
  | OnToolStart string
  | OnToolEnd string
  | OnComplete string "string option" "'i PermissionDenial list option"
  | OnError string

text \<open>
  A subprocess is identified by a number; the \<open>clearTimeout\<close> closure of a session
  is identified by the process whose timer it clears.
\<close>

record StreamSession =
  process :: nat
  sessionId :: "string option"
  conversationId :: string
  currentSegment :: string
  lastToolName :: "string option"
  clearTimeout :: nat

section \<open>handleStreamMessage\<close>

text \<open>\<open>if (session.lastToolName) { session.onToolEnd(...); session.lastToolName = null; }\<close>\<close>

definition endPendingTool :: "StreamSession \<Rightarrow> StreamSession \<times> 'i callback list" where
  "endPendingTool session =
     (case lastToolName session of
        None \<Rightarrow> (session, [])
      | Some n \<Rightarrow>
          if n = [] then (session, [])
          else (session\<lparr>lastToolName := None\<rparr>, [OnToolEnd n]))"

text \<open>One iteration of the loop over the content blocks of an assistant message.\<close>

definition handleBlock :: "StreamSession \<Rightarrow> ContentBlock \<Rightarrow> StreamSession \<times> 'i callback list" where
  "handleBlock session block =
     (if block_type block = ''text'' \<and> truthy (block_text block) then
        (let (s1, cs1) = endPendingTool session;
             t = the (block_text block)
         in (s1\<lparr>currentSegment := currentSegment s1 @ t\<rparr>, cs1 @ [OnChunk t]))
      else if block_type block = ''tool_use'' \<and> truthy (block_name block) then
        (let n = the (block_name block);
             (s1, cs1) =
               (if trim (currentSegment session) \<noteq> []
                then (session\<lparr>currentSegment := []\<rparr>, [OnSegmentEnd (currentSegment session)])
                else (session, []))
         in (s1\<lparr>lastToolName := Some n\<rparr>, cs1 @ [OnToolStart n]))
      else (session, []))"

fun handleBlocks :: "StreamSession \<Rightarrow> ContentBlock list \<Rightarrow> StreamSession \<times> 'i callback list" where
  "handleBlocks session [] = (session, [])"
| "handleBlocks session (b # bs) =
     (let (s1, cs1) = handleBlock session b;
          (s2, cs2) = handleBlocks s1 bs
      in (s2, cs1 @ cs2))"

definition handleStreamMessage ::
  "StreamSession \<Rightarrow> 'i StreamMessage \<Rightarrow> StreamSession \<times> 'i callback list" where
  "handleStreamMessage session msg =
     (if msg_type msg = ''system'' then
        (if subtype msg = Some ''init'' \<and> truthy (session_id msg)
         then (session\<lparr>sessionId := session_id msg\<rparr>, [])
         else (session, []))
      else if msg_type msg = ''assistant'' then
        (case message msg of
           None \<Rightarrow> (session, [])
         | Some m \<Rightarrow>
             (case content m of
                Blocks bs \<Rightarrow> handleBlocks session bs
              | Str s \<Rightarrow> (session, [])))
      else if msg_type msg = ''result'' then
        (let (s1, cs1) = endPendingTool session
         in if is_error msg = Some True
            then (s1, cs1 @ [OnError (or_else (result msg) ''Unknown error'')])
            else
              (let permissionDenials =
                     (case permission_denials msg of
                        None \<Rightarrow> None
                      | Some ds \<Rightarrow> if ds = [] then None else Some ds)
               in (s1, cs1 @ [OnComplete (or_else (result msg) []) (sessionId s1) permissionDenials])))
      else if msg_type msg = ''user'' then
        (case message msg of
           None \<Rightarrow> (session, [])
         | Some m \<Rightarrow>
             (case content m of
                Blocks bs \<Rightarrow> (session, [])
              | Str c \<Rightarrow>
                  (if c = [] then (session, [])
                   else
                     (case match_command_stdout c of
                        None \<Rightarrow> (session, [])
                      | Some g \<Rightarrow>
                          if g = [] then (session, [])
                          else
                            (let commandOutput = trim g
                             in (session\<lparr>currentSegment := currentSegment session @ commandOutput\<rparr>,
                                 [OnChunk commandOutput]))))))
      else (session, []))"

text \<open>The messages of a stream, handled in order by one session.\<close>

fun handleAll :: "StreamSession \<Rightarrow> 'i StreamMessage list \<Rightarrow> StreamSession \<times> 'i callback list" where
  "handleAll session [] = (session, [])"
| "handleAll session (m # ms) =
     (let (s1, cs1) = handleStreamMessage session m;
          (s2, cs2) = handleAll s1 ms
      in (s2, cs1 @ cs2))"

section \<open>The chat route: streaming callbacks\<close>

text \<open>
  \<open>deduplicatePermissionDenials\<close>: the filter with its \<open>seen\<close> set. The key is the
  template string \<open>`${tool_name}:${JSON.stringify(tool_input)}`\<close>.
\<close>

definition denial_key :: "('i \<Rightarrow> string) \<Rightarrow> 'i PermissionDenial \<Rightarrow> string" where
  "denial_key stringify denial = tool_name denial @ '':'' @ stringify (tool_input denial)"

fun dedup_filter ::
  "('i \<Rightarrow> string) \<Rightarrow> string set \<Rightarrow> 'i PermissionDenial list \<Rightarrow> 'i PermissionDenial list" where
  "dedup_filter stringify seen [] = []"
| "dedup_filter stringify seen (denial # denials) =
     (let key = denial_key stringify denial
      in if key \<in> seen then dedup_filter stringify seen denials
         else denial # dedup_filter stringify (insert key seen) denials)"

definition deduplicatePermissionDenials ::
  "('i \<Rightarrow> string) \<Rightarrow> 'i PermissionDenial list \<Rightarrow> 'i PermissionDenial list" where
  "deduplicatePermissionDenials stringify denials = dedup_filter stringify {} denials"

record 'i StreamResult =
  result_sessionId :: "string option"
  result_permissionDenials :: "'i PermissionDenial list option"
  result_error :: "string option"

record 'i StreamingState =
  segments :: "string list"
  state_currentSegment :: string
  state_result :: "'i StreamResult"

text \<open>The server-sent events written by \<open>writeSSEEvent\<close>.\<close>

datatype 'i sse =
    Chunk string
  | SegmentEnd string string
  | ToolStart string
  | ToolEnd string
  | PermissionRequired string "'i PermissionDenial list"
  | Complete string
  | NoResponse string string
  | Error string
  | TitleUpdate string string

definition onChunk :: "'i StreamingState \<Rightarrow> string \<Rightarrow> 'i StreamingState \<times> 'i sse list" where
  "onChunk state t = (state\<lparr>state_currentSegment := state_currentSegment state @ t\<rparr>, [Chunk t])"

definition onSegmentEnd ::
  "string \<Rightarrow> 'i StreamingState \<Rightarrow> string \<Rightarrow> 'i StreamingState \<times> 'i sse list" where
  "onSegmentEnd conv state c =
     (if trim c \<noteq> []
      then (state\<lparr>segments := segments state @ [c], state_currentSegment := []\<rparr>, [SegmentEnd conv c])
      else (state\<lparr>state_currentSegment := []\<rparr>, []))"

definition onToolStart :: "'i StreamingState \<Rightarrow> string \<Rightarrow> 'i StreamingState \<times> 'i sse list" where
  "onToolStart state toolName = (state, [ToolStart toolName])"

definition onToolEnd :: "'i StreamingState \<Rightarrow> string \<Rightarrow> 'i StreamingState \<times> 'i sse list" where
  "onToolEnd state toolName = (state, [ToolEnd toolName])"

definition onComplete ::
  "('i \<Rightarrow> string) \<Rightarrow> string \<Rightarrow> 'i StreamingState \<Rightarrow> string \<Rightarrow> string option \<Rightarrow>
   'i PermissionDenial list option \<Rightarrow> 'i StreamingState \<times> 'i sse list" where
  "onComplete stringify conv state res sid permissionDenials =
     (let deduplicatedDenials = map_option (deduplicatePermissionDenials stringify) permissionDenials;
          state1 = state\<lparr>state_result :=
                     \<lparr>result_sessionId = sid, result_permissionDenials = deduplicatedDenials,
                      result_error = None\<rparr>\<rparr>
      in if (case deduplicatedDenials of None \<Rightarrow> False | Some ds \<Rightarrow> 0 < length ds)
         then (state1, [PermissionRequired conv (the deduplicatedDenials)])
         else if trim (state_currentSegment state) \<noteq> [] \<or> 0 < length (segments state)
         then (state1, [Complete conv])
         else (state1, [NoResponse conv ''This command completed but produced no visible output.'']))"

definition onError :: "'i StreamingState \<Rightarrow> string \<Rightarrow> 'i StreamingState \<times> 'i sse list" where
  "onError state e =
     (state\<lparr>state_result :=
        \<lparr>result_sessionId = None, result_permissionDenials = None, result_error = Some e\<rparr>\<rparr>,
      [Error e])"

text \<open>\<open>createStreamingCallbacks\<close>: the callback a recorded call stands for.\<close>

fun createStreamingCallbacks ::
  "('i \<Rightarrow> string) \<Rightarrow> string \<Rightarrow> 'i StreamingState \<Rightarrow> 'i callback \<Rightarrow> 'i StreamingState \<times> 'i sse list" where
  "createStreamingCallbacks stringify conv state (OnChunk t) = onChunk state t"
| "createStreamingCallbacks stringify conv state (OnSegmentEnd c) = onSegmentEnd conv state c"
| "createStreamingCallbacks stringify conv state (OnToolStart n) = onToolStart state n"
| "createStreamingCallbacks stringify conv state (OnToolEnd n) = onToolEnd state n"
| "createStreamingCallbacks stringify conv state (OnComplete r sid ds) =
     onComplete stringify conv state r sid ds"
| "createStreamingCallbacks stringify conv state (OnError e) = onError state e"

fun applyCallbacks ::
  "('i \<Rightarrow> string) \<Rightarrow> string \<Rightarrow> 'i StreamingState \<Rightarrow> 'i callback list \<Rightarrow>
   'i StreamingState \<times> 'i sse list" where
  "applyCallbacks stringify conv state [] = (state, [])"
| "applyCallbacks stringify conv state (c # cs) =
     (let (st1, es1) = createStreamingCallbacks stringify conv state c;
          (st2, es2) = applyCallbacks stringify conv st1 cs
      in (st2, es1 @ es2))"

section \<open>The chat route: after the stream\<close>

record Conversation =
  conv_id :: string
  conv_claudeSessionId :: "string option"
  conv_title :: "string option"

text \<open>
  The calls to the persistence layer, and everything the route sends out: events to the
  client, calls to the database, the push notification with its message preview.
\<close>

datatype db_op =
    UpdateClaudeSessionId string string
  | CreateMessage string string string
  | UpdateConversationTitle string string

datatype 'i out = Sse "'i sse" | Db db_op | Push string string

text \<open>
  An awaited database call that throws ends the function it is in. \<open>db_ok\<close> tells
  which calls succeed; a run of calls stops at the first that throws. The result is the
  calls made, and whether all of them returned.
\<close>

fun dbCalls :: "(db_op \<Rightarrow> bool) \<Rightarrow> db_op list \<Rightarrow> db_op list \<times> bool" where
  "dbCalls db_ok [] = ([], True)"
| "dbCalls db_ok (c # cs) =
     (if db_ok c then (let (made, fine) = dbCalls db_ok cs in (c # made, fine))
      else ([c], False))"

definition storeSegments :: "string \<Rightarrow> string list \<Rightarrow> string \<Rightarrow> db_op list" where
  "storeSegments cid segs cur =
     map (\<lambda>segmentContent. CreateMessage cid ''assistant'' segmentContent) segs
     @ (if trim cur \<noteq> [] then [CreateMessage cid ''assistant'' cur] else [])"

text \<open>\<open>segments.join('\n')\<close>\<close>

fun join_nl :: "string list \<Rightarrow> string" where
  "join_nl [] = []"
| "join_nl [x] = x"
| "join_nl (x # y # ys) = x @ CHR 0x0A # join_nl (y # ys)"

text \<open>
  \<open>generateAndUpdateTitle\<close> catches every error. \<open>generated\<close> is the title that
  \<open>generateTitle\<close> resolves to (\<open>None\<close> when it has none or throws); a title is
  returned when it is not empty and the database stored it.
\<close>

definition generateAndUpdateTitle ::
  "(db_op \<Rightarrow> bool) \<Rightarrow> string option \<Rightarrow> Conversation \<Rightarrow> db_op list \<times> string option" where
  "generateAndUpdateTitle db_ok generated conversation =
     (if truthy generated
      then ([UpdateConversationTitle (conv_id conversation) (the generated)],
            if db_ok (UpdateConversationTitle (conv_id conversation) (the generated))
            then generated else None)
      else ([], None))"

definition persistStreamResult ::
  "(db_op \<Rightarrow> bool) \<Rightarrow> string option \<Rightarrow> Conversation \<Rightarrow> string \<Rightarrow> 'i StreamingState \<Rightarrow>
   'i out list \<times> bool" where
  "persistStreamResult db_ok generated conversation userId state =
     (let res = state_result state;
          upd = (if truthy (result_sessionId res) \<and> result_sessionId res \<noteq> conv_claudeSessionId conversation
                 then [UpdateClaudeSessionId (conv_id conversation) (the (result_sessionId res))]
                 else []);
          stores =
            (if (case result_permissionDenials res of None \<Rightarrow> False | Some ds \<Rightarrow> 0 < length ds)
             then storeSegments (conv_id conversation) (segments state) (state_currentSegment state)
             else
               (let allSegments =
                      (if trim (state_currentSegment state) \<noteq> []
                       then segments state @ [state_currentSegment state]
                       else segments state)
                in map (\<lambda>segmentContent. CreateMessage (conv_id conversation) ''assistant'' segmentContent)
                     allSegments));
          (made, fine) = dbCalls db_ok (upd @ stores)
      in if \<not> fine then (map Db made, False)
         else if (case result_permissionDenials res of None \<Rightarrow> False | Some ds \<Rightarrow> 0 < length ds)
         then (map Db made, True)
         else
           (let allSegments =
                  (if trim (state_currentSegment state) \<noteq> []
                   then segments state @ [state_currentSegment state]
                   else segments state)
            in if 0 < length allSegments
               then
                 (let (tcalls, newTitle) = generateAndUpdateTitle db_ok generated conversation
                  in (map Db made @ map Db tcalls
                      @ (case newTitle of
                           None \<Rightarrow> []
                         | Some t \<Rightarrow> [Sse (TitleUpdate (conv_id conversation) t)])
                      @ [Push userId (trim (join_nl allSegments))],
                      True))
               else (map Db made, True)))"

section \<open>The line decoder\<close>

text \<open>
  A chunk is modelled after \<open>TextDecoder.decode(value, {stream: true})\<close>: as the text
  it decodes to. The streaming decoder holds back an incomplete byte sequence at the end
  of a chunk, so the texts of the chunks concatenate to the text of the stream, however
  the bytes are cut.

  \<open>split_nl\<close> is \<open>buffer.split('\n')\<close>: never empty, its last element the text after the
  last newline.
\<close>

fun split_nl :: "string \<Rightarrow> string list" where
  "split_nl [] = [[]]"
| "split_nl (c # cs) =
     (if c = CHR 0x0A then [] # split_nl cs
      else (case split_nl cs of [] \<Rightarrow> [[c]] | l # ls \<Rightarrow> (c # l) # ls))"

text \<open>
  The body of \<open>for (const line of lines)\<close>. \<open>parse\<close> is \<open>JSON.parse\<close> followed by
  the cast to the message type, \<open>None\<close> where it throws; \<open>h\<close> is what is done with a
  parsed message, on a state \<open>s\<close>. The \<open>catch\<close> around both leaves the state as it is.
\<close>

definition processLine :: "(string \<Rightarrow> 'm option) \<Rightarrow> ('s \<Rightarrow> 'm \<Rightarrow> 's) \<Rightarrow> 's \<Rightarrow> string \<Rightarrow> 's" where
  "processLine parse h s line =
     (if trim line = [] then s
      else (case parse line of None \<Rightarrow> s | Some m \<Rightarrow> h s m))"

text \<open>The body of the \<open>while\<close> loop once a chunk is read: the state and the buffer.\<close>

definition onData ::
  "(string \<Rightarrow> 'm option) \<Rightarrow> ('s \<Rightarrow> 'm \<Rightarrow> 's) \<Rightarrow> 's \<times> string \<Rightarrow> string \<Rightarrow> 's \<times> string" where
  "onData parse h sb chunk =
     (let lines = split_nl (snd sb @ chunk)
      in (foldl (processLine parse h) (fst sb) (butlast lines), last lines))"

text \<open>\<open>// Process any remaining buffer\<close>\<close>

definition flushBuffer ::
  "(string \<Rightarrow> 'm option) \<Rightarrow> ('s \<Rightarrow> 'm \<Rightarrow> 's) \<Rightarrow> 's \<times> string \<Rightarrow> 's" where
  "flushBuffer parse h sb =
     (if trim (snd sb) \<noteq> []
      then (case parse (snd sb) of None \<Rightarrow> fst sb | Some m \<Rightarrow> h (fst sb) m)
      else fst sb)"

text \<open>
  The decoder of \<open>runClaudeStreaming\<close> on a stream that is read to its end: the chunks
  in order, then the remaining buffer.
\<close>

definition decodeStream ::
  "(string \<Rightarrow> 'm option) \<Rightarrow> ('s \<Rightarrow> 'm \<Rightarrow> 's) \<Rightarrow> 's \<Rightarrow> string list \<Rightarrow> 's" where
  "decodeStream parse h s chunks = flushBuffer parse h (foldl (onData parse h) (s, []) chunks)"

text \<open>The parsed objects, in the order in which they are handled.\<close>

definition parsedObjects :: "(string \<Rightarrow> 'm option) \<Rightarrow> string list \<Rightarrow> 'm list" where
  "parsedObjects parse chunks = decodeStream parse (\<lambda>acc m. acc @ [m]) [] chunks"

subsection \<open>The loop of runClaude\<close>

text \<open>
  The non-streaming variant has the same loop and no parse of the remaining buffer. Its
  state is \<open>(responseText, sessionId)\<close>. A text block without a \<open>text\<close> field appends
  the string \<open>undefined\<close>; a string content is iterated by character and appends nothing.
\<close>

fun blockTexts :: "ContentBlock list \<Rightarrow> string" where
  "blockTexts [] = []"
| "blockTexts (b # bs) =
     (if block_type b = ''text''
      then (case block_text b of None \<Rightarrow> ''undefined'' | Some t \<Rightarrow> t) @ blockTexts bs
      else blockTexts bs)"

definition runClaudeEvent :: "string \<times> string \<Rightarrow> 'i StreamMessage \<Rightarrow> string \<times> string" where
  "runClaudeEvent st event =
     (let sid1 = (if msg_type event = ''system'' \<and> truthy (session_id event)
                  then the (session_id event) else snd st)
      in if msg_type event = ''assistant'' then
           (case message event of
              None \<Rightarrow> (fst st, sid1)
            | Some m \<Rightarrow>
                (case content m of
                   Blocks bs \<Rightarrow>
                     (fst st @ blockTexts bs,
                      if truthy (session_id event) then the (session_id event) else sid1)
                 | Str c \<Rightarrow>
                     if c = [] then (fst st, sid1)
                     else (fst st, if truthy (session_id event) then the (session_id event) else sid1)))
         else (fst st, sid1))"

definition runClaudeLoop ::
  "(string \<Rightarrow> 'i StreamMessage option) \<Rightarrow> string list \<Rightarrow> string \<times> string" where
  "runClaudeLoop parse chunks = fst (foldl (onData parse runClaudeEvent) (([], []), []) chunks)"

section \<open>runClaudeStreaming\<close>

text \<open>
  What a turn does to the world outside it, in the order in which it does it: calls on the
  subprocess and its pipes, on the timer, on the map of active sessions, and on the
  caller's callbacks. \<open>Kill p threw\<close> is a call of \<open>kill()\<close> on process \<open>p\<close>, and
  whether it threw.
\<close>

datatype 'i effect =
    ClearTimeout nat
  | Kill nat bool
  | RegistryDelete string
  | RegistrySet string
  | Spawn nat
  | SetTimeout nat
  | StdinWrite nat string
  | StdinEnd nat
  | GetReader nat
  | ReleaseLock nat
  | Callback "'i callback"
  | ReadStderr nat
  | ReleaseStderrLock nat

text \<open>
  What the turn meets. While the turn waits in \<open>reader.read()\<close> it gets a chunk
  (\<open>Data\<close>), or the two minutes of the timer pass (\<open>TimerFires\<close>); the stream then ends
  (\<open>Done\<close>) or the read throws (\<open>ReadError\<close>). The stream is finite.
\<close>

datatype read_event = Data string | TimerFires

datatype read_end = Done | ReadError string

datatype stdin_result = StdinOk | WriteThrows string | EndThrows string

record 'i env =
  parse :: "string \<Rightarrow> 'i StreamMessage option"
  spawned :: nat
  kill_throws :: "nat \<Rightarrow> bool"
  stdin :: stdin_result
  reads :: "read_event list"
  read_end :: read_end
  exit_code :: int

text \<open>
  \<open>activeSessions\<close>. The map holds the session object, which the turn goes on updating;
  the model stores it as it is when registered, and of a stored session only
  \<open>process\<close> and \<open>clearTimeout\<close> are ever read.
\<close>

type_synonym registry = "string \<rightharpoonup> StreamSession"

text \<open>
  The eviction at the start of \<open>runClaudeStreaming\<close>, which is also the body of
  \<open>cancelStream\<close>: clear the timeout, kill the process inside a \<open>try\<close> whose
  \<open>catch\<close> is empty, delete the entry.
\<close>

definition killExisting ::
  "(nat \<Rightarrow> bool) \<Rightarrow> registry \<Rightarrow> string \<Rightarrow> StreamSession \<Rightarrow> registry \<times> 'i effect list" where
  "killExisting kt reg cid existingSession =
     (reg(cid := None),
      [ClearTimeout (clearTimeout existingSession),
       Kill (process existingSession) (kt (process existingSession)),
       RegistryDelete cid])"

definition cancelStream ::
  "(nat \<Rightarrow> bool) \<Rightarrow> registry \<Rightarrow> string \<Rightarrow> bool \<times> registry \<times> 'i effect list" where
  "cancelStream kt reg cid =
     (case reg cid of
        Some session \<Rightarrow> (let (reg1, es) = killExisting kt reg cid session in (True, reg1, es))
      | None \<Rightarrow> (False, reg, []))"

text \<open>
  \<open>handleStreamMessage(session, parsed)\<close> in the read loop: the session is updated and
  the calls of the callbacks are appended to the effects of the loop.
\<close>

definition dispatch ::
  "StreamSession \<times> 'i effect list \<Rightarrow> 'i StreamMessage \<Rightarrow> StreamSession \<times> 'i effect list" where
  "dispatch st msg =
     (let (s1, cs) = handleStreamMessage (fst st) msg in (s1, snd st @ map Callback cs))"

text \<open>
  The \<open>while\<close> loop. Its state is the session with the effects so far, the buffer, and
  \<open>timedOut\<close>. The timer is set once and fires at most once: its callback sets
  \<open>timedOut\<close>, calls \<open>onError\<close> and kills the process (outside any \<open>try\<close>).
  Timer callbacks run only while the turn waits, which in the loop is in
  \<open>reader.read()\<close>. One turn is modelled: no other turn and no \<open>cancelStream\<close> for
  the conversation runs while it waits.
\<close>

fun readLoop ::
  "(string \<Rightarrow> 'i StreamMessage option) \<Rightarrow> (nat \<Rightarrow> bool) \<Rightarrow> nat \<Rightarrow>
   (StreamSession \<times> 'i effect list) \<times> string \<Rightarrow> bool \<Rightarrow> read_event list \<Rightarrow>
   ((StreamSession \<times> 'i effect list) \<times> string) \<times> bool" where
  "readLoop prs kt p sb timedOut [] = (sb, timedOut)"
| "readLoop prs kt p sb timedOut (Data chunk # evs) =
     readLoop prs kt p (onData prs dispatch sb chunk) timedOut evs"
| "readLoop prs kt p sb timedOut (TimerFires # evs) =
     (if timedOut then readLoop prs kt p sb timedOut evs
      else readLoop prs kt p
             ((fst (fst sb), snd (fst sb) @ [Callback (OnError ''Request timed out''), Kill p (kt p)]),
              snd sb)
             True evs)"

text \<open>The session object as \<open>runClaudeStreaming\<close> creates it.\<close>

definition newSession :: "nat \<Rightarrow> string \<Rightarrow> string option \<Rightarrow> StreamSession" where
  "newSession proc cid claudeSessionId =
     \<lparr>process = proc, sessionId = claudeSessionId, conversationId = cid,
      currentSegment = [], lastToolName = None, clearTimeout = proc\<rparr>"

text \<open>\<open>// Kill any existing session for this conversation to prevent orphaned processes\<close>\<close>

definition evictExisting ::
  "(nat \<Rightarrow> bool) \<Rightarrow> registry \<Rightarrow> string \<Rightarrow> registry \<times> 'i effect list" where
  "evictExisting kt reg cid =
     (case reg cid of
        Some existingSession \<Rightarrow> killExisting kt reg cid existingSession
      | None \<Rightarrow> (reg, []))"

text \<open>
  The \<open>try\<close> block around the loop with its \<open>catch\<close>: the loop, then the remaining
  buffer when the stream ended, or \<open>onError\<close> when the read threw and no timeout had
  fired. The result is the effects and \<open>timedOut\<close>.
\<close>

definition readStdout :: "'i env \<Rightarrow> nat \<Rightarrow> StreamSession \<Rightarrow> 'i effect list \<times> bool" where
  "readStdout e proc session =
     (let r = readLoop (parse e) (kill_throws e) proc ((session, []), []) False (reads e)
      in (case read_end e of
            Done \<Rightarrow> snd (flushBuffer (parse e) dispatch (fst r))
          | ReadError err \<Rightarrow>
              snd (fst (fst r))
              @ (if \<not> snd r then [Callback (OnError (''Stream read error: '' @ err))] else []),
          snd r))"

text \<open>After \<open>await proc.exited\<close>.\<close>

definition afterExit :: "'i env \<Rightarrow> nat \<Rightarrow> bool \<Rightarrow> 'i effect list" where
  "afterExit e proc timedOut =
     (if timedOut then []
      else if exit_code e \<noteq> 0 then [ReadStderr proc, ReleaseStderrLock proc]
      else [])"

definition runClaudeStreaming ::
  "'i env \<Rightarrow> registry \<Rightarrow> string \<Rightarrow> string \<Rightarrow> string option \<Rightarrow> registry \<times> 'i effect list" where
  "runClaudeStreaming e reg msg cid claudeSessionId =
     (let ev = evictExisting (kill_throws e) reg cid;
          proc = spawned e;
          session = newSession proc cid claudeSessionId;
          reg2 = (fst ev)(cid \<mapsto> session);
          es2 = snd ev @ [Spawn proc, SetTimeout proc, RegistrySet cid]
      in case stdin e of
           WriteThrows err \<Rightarrow>
             (reg2(cid := None),
              es2 @ [StdinWrite proc msg, ClearTimeout proc, RegistryDelete cid,
                     Callback (OnError (''Failed to send message: '' @ err)),
                     Kill proc (kill_throws e proc)])
         | EndThrows err \<Rightarrow>
             (reg2(cid := None),
              es2 @ [StdinWrite proc msg, StdinEnd proc, ClearTimeout proc, RegistryDelete cid,
                     Callback (OnError (''Failed to send message: '' @ err)),
                     Kill proc (kill_throws e proc)])
         | StdinOk \<Rightarrow>
             (let rd = readStdout e proc session
              in (reg2(cid := None),
                  es2 @ [StdinWrite proc msg, StdinEnd proc, GetReader proc]
                  @ fst rd
                  @ [ClearTimeout proc, ReleaseLock proc, RegistryDelete cid]
                  @ afterExit e proc (snd rd))))"

section \<open>handleStreamingResponse\<close>

fun callbacksOf :: "'i effect list \<Rightarrow> 'i callback list" where
  "callbacksOf [] = []"
| "callbacksOf (Callback c # es) = c # callbacksOf es"
| "callbacksOf (x # es) = callbacksOf es"

definition initialState :: "'i StreamingState" where
  "initialState =
     \<lparr>segments = [], state_currentSegment = [],
      state_result = \<lparr>result_sessionId = None, result_permissionDenials = None, result_error = None\<rparr>\<rparr>"

text \<open>
  The result: the map of active sessions, the effects of the turn, and what the route
  sent out, in order.
\<close>

definition handleStreamingResponse ::
  "'i env \<Rightarrow> ('i \<Rightarrow> string) \<Rightarrow> (db_op \<Rightarrow> bool) \<Rightarrow> string option \<Rightarrow> registry \<Rightarrow> string \<Rightarrow>
   Conversation \<Rightarrow> string \<Rightarrow> registry \<times> 'i effect list \<times> 'i out list" where
  "handleStreamingResponse e stringify db_ok generated reg msg conversation userId =
     (let (reg1, es) = runClaudeStreaming e reg msg (conv_id conversation) (conv_claudeSessionId conversation);
          (state, events) = applyCallbacks stringify (conv_id conversation) initialState (callbacksOf es)
      in if truthy (result_error (state_result state)) then (reg1, es, map Sse events)
         else
           (let (outs, fine) = persistStreamResult db_ok generated conversation userId state
            in (reg1, es,
                map Sse events @ outs
                @ (if fine then [] else [Sse (Error ''Failed to store response'')]))))"

section \<open>Stream events by the signal they carry\<close>

text \<open>
  The specification names the events of a stream by the signal each carries. These are
  the events meant: a system event of subtype init, an assistant event with one text block, an assistant event with one
  tool-use block, a result event with \<open>is_error\<close> false, and a result event with
  \<open>is_error\<close> true.
\<close>

definition assistantEvent :: "ContentBlock list \<Rightarrow> 'i StreamMessage" where
  "assistantEvent bs =
     \<lparr>msg_type = ''assistant'', subtype = None,
      message = Some \<lparr>role = Some ''assistant'', content = Blocks bs\<rparr>,
      result = None, session_id = None, is_error = None, permission_denials = None\<rparr>"

definition SessionEstablished :: "string \<Rightarrow> 'i StreamMessage" where
  "SessionEstablished sid =
     \<lparr>msg_type = ''system'', subtype = Some ''init'', message = None,
      result = None, session_id = Some sid, is_error = None, permission_denials = None\<rparr>"

definition TextDelta :: "string \<Rightarrow> 'i StreamMessage" where
  "TextDelta t = assistantEvent [\<lparr>block_type = ''text'', block_text = Some t, block_name = None\<rparr>]"

definition ToolInvoked :: "string \<Rightarrow> 'i StreamMessage" where
  "ToolInvoked n = assistantEvent [\<lparr>block_type = ''tool_use'', block_text = None, block_name = Some n\<rparr>]"

definition TurnSucceeded :: "string \<Rightarrow> 'i PermissionDenial list option \<Rightarrow> 'i StreamMessage" where
  "TurnSucceeded r ds =
     \<lparr>msg_type = ''result'', subtype = Some ''success'', message = None,
      result = Some r, session_id = None, is_error = Some False, permission_denials = ds\<rparr>"

definition TurnFailed :: "string \<Rightarrow> 'i StreamMessage" where
  "TurnFailed r =
     \<lparr>msg_type = ''result'', subtype = Some ''error'', message = None,
      result = Some r, session_id = None, is_error = Some True, permission_denials = None\<rparr>"

text \<open>
  A text delta shows as a call of \<open>onChunk\<close>, a tool invocation as a call of
  \<open>onToolStart\<close>; \<open>onComplete\<close> and \<open>onError\<close> are the terminal callbacks.
  \<open>pendingTool\<close> is the tool a session is waiting on, if any.
\<close>

fun isChunk :: "'i callback \<Rightarrow> bool" where
  "isChunk (OnChunk t) = True"
| "isChunk c = False"

fun isToolStart :: "'i callback \<Rightarrow> bool" where
  "isToolStart (OnToolStart n) = True"
| "isToolStart c = False"

fun isTerminal :: "'i callback \<Rightarrow> bool" where
  "isTerminal (OnComplete r sid ds) = True"
| "isTerminal (OnError e) = True"
| "isTerminal c = False"

definition pendingTool :: "StreamSession \<Rightarrow> string list" where
  "pendingTool s = (case lastToolName s of None \<Rightarrow> [] | Some n \<Rightarrow> if n = [] then [] else [n])"

text \<open>The segments finalized so far all have text that is not only white space.\<close>

definition nonBlankSegments :: "'i StreamingState \<Rightarrow> bool" where
  "nonBlankSegments st = (\<forall>x\<in>set (segments st). trim x \<noteq> [])"

text \<open>
  A system/init event that carries a session id, and the most recent one of a stream: the
  words of the specification, to compare with what the session records.
\<close>

definition isInit :: "'i StreamMessage \<Rightarrow> bool" where
  "isInit m = (msg_type m = ''system'' \<and> subtype m = Some ''init'' \<and> truthy (session_id m))"

definition mostRecentInit :: "'i StreamMessage list \<Rightarrow> 'i StreamMessage option" where
  "mostRecentInit ms = (case filter isInit ms of [] \<Rightarrow> None | x # xs \<Rightarrow> Some (last (x # xs)))"

definition observedSessionId :: "string option \<Rightarrow> 'i StreamMessage list \<Rightarrow> string option" where
  "observedSessionId claudeSessionId ms =
     (case mostRecentInit ms of None \<Rightarrow> claudeSessionId | Some m \<Rightarrow> session_id m)"

section \<open>A concrete stream\<close>

text \<open>
  Two lines of stream-json output, a line of diagnostic text that is not JSON, and
  \<open>JSON.parse\<close> restricted to them, for the instances at concrete inputs.
\<close>

definition textLine :: string where
  "textLine = ''{\"type\":\"assistant\",\"message\":{\"content\":[{\"type\":\"text\",\"text\":\"hi\"}]}}''"

definition resultLine :: string where
  "resultLine = ''{\"type\":\"result\",\"is_error\":false,\"result\":\"\"}''"

definition noiseLine :: string where
  "noiseLine = ''warning: slow''"

definition parseLines :: "string \<Rightarrow> 'i StreamMessage option" where
  "parseLines = map_of [(textLine, TextDelta ''hi''), (resultLine, TurnSucceeded [] None)]"

definition quietEnv :: "'i env" where
  "quietEnv =
     \<lparr>parse = parseLines, spawned = 7, kill_throws = (\<lambda>p. False), stdin = StdinOk,
      reads = [], read_end = Done, exit_code = 0\<rparr>"

section \<open>Reading a turn's effects\<close>

text \<open>
  The effects of a turn from the spawn of its process on; the three release steps among
  some effects; the calls of the terminal callbacks among them.
\<close>

definition sinceSpawn :: "nat \<Rightarrow> 'i effect list \<Rightarrow> 'i effect list" where
  "sinceSpawn proc es = tl (dropWhile (\<lambda>x. x \<noteq> Spawn proc) es)"

fun isCleanup :: "'i effect \<Rightarrow> bool" where
  "isCleanup (ClearTimeout p) = True"
| "isCleanup (ReleaseLock p) = True"
| "isCleanup (RegistryDelete c) = True"
| "isCleanup x = False"

fun isLoopEffect :: "'i effect \<Rightarrow> bool" where
  "isLoopEffect (Callback c) = True"
| "isLoopEffect (Kill p threw) = True"
| "isLoopEffect x = False"

definition terminalCalls :: "'i effect list \<Rightarrow> 'i callback list" where
  "terminalCalls es = filter isTerminal (callbacksOf es)"

text \<open>
  The text a turn reads, and its lines that parse to a result event: the lines between
  newlines and the text after the last newline.
\<close>

fun dataOf :: "read_event list \<Rightarrow> string" where
  "dataOf [] = []"
| "dataOf (Data chunk # evs) = chunk @ dataOf evs"
| "dataOf (TimerFires # evs) = dataOf evs"

definition isResultLine :: "(string \<Rightarrow> 'i StreamMessage option) \<Rightarrow> string \<Rightarrow> bool" where
  "isResultLine prs l =
     (trim l \<noteq> [] \<and> (case prs l of None \<Rightarrow> False | Some m \<Rightarrow> msg_type m = ''result''))"

definition resultLines :: "'i env \<Rightarrow> string list" where
  "resultLines e = filter (isResultLine (parse e)) (split_nl (dataOf (reads e)))"

text \<open>
  Lines for the events of a turn with a tool call and of a turn that establishes a session,
  and \<open>JSON.parse\<close> restricted to them.
\<close>

definition sessionLine :: "string \<Rightarrow> string" where
  "sessionLine sid = ''{\"type\":\"system\",\"subtype\":\"init\",\"session_id\":\"'' @ sid @ ''\"}''"

definition textLineOf :: "string \<Rightarrow> string" where
  "textLineOf t =
     ''{\"type\":\"assistant\",\"message\":{\"content\":[{\"type\":\"text\",\"text\":\"'' @ t @ ''\"}]}}''"

definition toolLineOf :: "string \<Rightarrow> string" where
  "toolLineOf n =
     ''{\"type\":\"assistant\",\"message\":{\"content\":[{\"type\":\"tool_use\",\"name\":\"'' @ n @ ''\"}]}}''"

definition parseTurn :: "string \<Rightarrow> 'i StreamMessage option" where
  "parseTurn =
     map_of [(sessionLine ''s1'', SessionEstablished ''s1''),
             (sessionLine ''s2'', SessionEstablished ''s2''),
             (textLineOf ''a'', TextDelta ''a''),
             (toolLineOf ''Bash'', ToolInvoked ''Bash''),
             (textLineOf ''b'', TextDelta ''b''),
             (resultLine, TurnSucceeded [] None)]"

section \<open>Turns that overlap\<close>

text \<open>
  A turn runs without interruption between two of its \<open>await\<close>s, and other turns may
  run while it waits. It reads or writes \<open>activeSessions\<close> in two places only. The
  first is its start, the code before the first \<open>await reader.read()\<close>: eviction,
  spawn, timer, registration, the write to stdin (with the clean-up when that throws) and
  \<open>getReader()\<close>. The second is its \<open>finally\<close> block, which runs when it has left the
  read loop.
\<close>

definition beginTurn ::
  "'i env \<Rightarrow> registry \<Rightarrow> string \<Rightarrow> string \<Rightarrow> string option \<Rightarrow> registry \<times> 'i effect list" where
  "beginTurn e reg msg cid claudeSessionId =
     (let ev = evictExisting (kill_throws e) reg cid;
          proc = spawned e;
          session = newSession proc cid claudeSessionId;
          reg2 = (fst ev)(cid \<mapsto> session);
          es2 = snd ev @ [Spawn proc, SetTimeout proc, RegistrySet cid]
      in case stdin e of
           WriteThrows err \<Rightarrow>
             (reg2(cid := None),
              es2 @ [StdinWrite proc msg, ClearTimeout proc, RegistryDelete cid,
                     Callback (OnError (''Failed to send message: '' @ err)),
                     Kill proc (kill_throws e proc)])
         | EndThrows err \<Rightarrow>
             (reg2(cid := None),
              es2 @ [StdinWrite proc msg, StdinEnd proc, ClearTimeout proc, RegistryDelete cid,
                     Callback (OnError (''Failed to send message: '' @ err)),
                     Kill proc (kill_throws e proc)])
         | StdinOk \<Rightarrow> (reg2, es2 @ [StdinWrite proc msg, StdinEnd proc, GetReader proc]))"

definition finallyBlock :: "nat \<Rightarrow> string \<Rightarrow> registry \<Rightarrow> registry \<times> 'i effect list" where
  "finallyBlock proc cid reg =
     (reg(cid := None), [ClearTimeout proc, ReleaseLock proc, RegistryDelete cid])"

text \<open>
  A schedule of turns on one map of active sessions: \<open>Begins\<close> is the start of a turn,
  \<open>LeavesLoop\<close> is a turn that started (and whose write succeeded) leaving its read
  loop, with what it read, its \<open>finally\<close> block and what it does after the exit of its
  process.
\<close>

datatype 'i turn_event =
    Begins "'i env" string string "string option"
  | LeavesLoop "'i env" string "string option"

fun interleave :: "registry \<Rightarrow> 'i turn_event list \<Rightarrow> registry \<times> 'i effect list" where
  "interleave reg [] = (reg, [])"
| "interleave reg (Begins e msg cid sid # xs) =
     (let b = beginTurn e reg msg cid sid;
          r = interleave (fst b) xs
      in (fst r, snd b @ snd r))"
| "interleave reg (LeavesLoop e cid sid # xs) =
     (let rd = readStdout e (spawned e) (newSession (spawned e) cid sid);
          f = finallyBlock (spawned e) cid reg;
          r = interleave (fst f) xs
      in (fst r, fst rd @ snd f @ afterExit e (spawned e) (snd rd) @ snd r))"

text \<open>The processes spawned and not killed since, in the order of their spawns.\<close>

fun notKilled :: "'i effect list \<Rightarrow> nat list \<Rightarrow> nat list" where
  "notKilled [] ps = ps"
| "notKilled (Spawn p # es) ps = notKilled es (ps @ [p])"
| "notKilled (Kill p threw # es) ps = notKilled es (removeAll p ps)"
| "notKilled (x # es) ps = notKilled es ps"

section \<open>Permission denials\<close>

lemma upt_Suc_shift: "[0..<Suc n] = 0 # map Suc [0..<n]"
  by (simp add: upt_conv_Cons map_Suc_upt del: upt_Suc)

lemma dedup_filter_index:
  "dedup_filter S seen ds =
     map ((!) ds) (filter (\<lambda>i. denial_key S (ds ! i) \<notin> seen \<union> set (map (denial_key S) (take i ds)))
        [0..<length ds])"
proof (induction ds arbitrary: seen)
  case Nil
  show ?case by simp
next
  case (Cons d ds)
  have shift: "[0..<length (d # ds)] = 0 # map Suc [0..<length ds]"
    using upt_Suc_shift [of "length ds"] by simp
  show ?case
  proof (cases "denial_key S d \<in> seen")
    case True
    then have absorb: "\<And>k X. (k \<notin> seen \<and> k \<noteq> denial_key S d \<and> X) = (k \<notin> seen \<and> X)"
      by auto
    from True show ?thesis
      unfolding shift by (simp add: Cons.IH filter_map comp_def Let_def absorb)
  next
    case False
    then show ?thesis
      unfolding shift by (simp add: Cons.IH filter_map comp_def Let_def conj_left_commute)
  qed
qed

text \<open>
  Claim C6. \<open>deduplicatePermissionDenials\<close> returns the denials at exactly those
  positions of its input whose key \<open>tool_name:JSON.stringify(tool_input)\<close> occurs at no
  earlier position, in the order of the input; the key does not depend on
  \<open>tool_use_id\<close>; and the list Write/path:/a/1, Write/path:/a/2, Bash/cmd:ls/3 is
  reduced to the first and the third entry, whatever the serialiser and the two inputs.
\<close>

theorem dedup_keeps_first_occurrences:
  "deduplicatePermissionDenials S ds =
     map ((!) ds)
       (filter (\<lambda>i. denial_key S (ds ! i) \<notin> set (map (denial_key S) (take i ds))) [0..<length ds])
   \<and> denial_key S (d\<lparr>tool_use_id := u\<rparr>) = denial_key S d
   \<and> deduplicatePermissionDenials S
        [\<lparr>tool_name = ''Write'', tool_use_id = ''1'', tool_input = pa\<rparr>,
         \<lparr>tool_name = ''Write'', tool_use_id = ''2'', tool_input = pa\<rparr>,
         \<lparr>tool_name = ''Bash'', tool_use_id = ''3'', tool_input = cl\<rparr>]
      = [\<lparr>tool_name = ''Write'', tool_use_id = ''1'', tool_input = pa\<rparr>,
         \<lparr>tool_name = ''Bash'', tool_use_id = ''3'', tool_input = cl\<rparr>]"
proof -
  have a: "deduplicatePermissionDenials S ds =
     map ((!) ds)
       (filter (\<lambda>i. denial_key S (ds ! i) \<notin> set (map (denial_key S) (take i ds))) [0..<length ds])"
    unfolding deduplicatePermissionDenials_def using dedup_filter_index [of S "{}" ds] by simp
  have b: "denial_key S (d\<lparr>tool_use_id := u\<rparr>) = denial_key S d"
    by (simp add: denial_key_def)
  have c: "deduplicatePermissionDenials S
        [\<lparr>tool_name = ''Write'', tool_use_id = ''1'', tool_input = pa\<rparr>,
         \<lparr>tool_name = ''Write'', tool_use_id = ''2'', tool_input = pa\<rparr>,
         \<lparr>tool_name = ''Bash'', tool_use_id = ''3'', tool_input = cl\<rparr>]
      = [\<lparr>tool_name = ''Write'', tool_use_id = ''1'', tool_input = pa\<rparr>,
         \<lparr>tool_name = ''Bash'', tool_use_id = ''3'', tool_input = cl\<rparr>]"
    by (simp add: deduplicatePermissionDenials_def denial_key_def)
  from a b c show ?thesis by blast
qed

theorem dedup_keeps_first_occurrences_witness:
  "deduplicatePermissionDenials (\<lambda>j. j)
     [\<lparr>tool_name = ''Write'', tool_use_id = ''1'', tool_input = ''{\"path\":\"/a\"}''\<rparr>,
      \<lparr>tool_name = ''Bash'', tool_use_id = ''3'', tool_input = ''{\"cmd\":\"ls\"}''\<rparr>,
      \<lparr>tool_name = ''Write'', tool_use_id = ''2'', tool_input = ''{\"path\":\"/a\"}''\<rparr>,
      \<lparr>tool_name = ''Write'', tool_use_id = ''4'', tool_input = ''{\"path\":\"/b\"}''\<rparr>]
   = [\<lparr>tool_name = ''Write'', tool_use_id = ''1'', tool_input = ''{\"path\":\"/a\"}''\<rparr>,
      \<lparr>tool_name = ''Bash'', tool_use_id = ''3'', tool_input = ''{\"cmd\":\"ls\"}''\<rparr>,
      \<lparr>tool_name = ''Write'', tool_use_id = ''4'', tool_input = ''{\"path\":\"/b\"}''\<rparr>]"
  using dedup_keeps_first_occurrences [of "\<lambda>j. j"
     "[\<lparr>tool_name = ''Write'', tool_use_id = ''1'', tool_input = ''{\"path\":\"/a\"}''\<rparr>,
      \<lparr>tool_name = ''Bash'', tool_use_id = ''3'', tool_input = ''{\"cmd\":\"ls\"}''\<rparr>,
      \<lparr>tool_name = ''Write'', tool_use_id = ''2'', tool_input = ''{\"path\":\"/a\"}''\<rparr>,
      \<lparr>tool_name = ''Write'', tool_use_id = ''4'', tool_input = ''{\"path\":\"/b\"}''\<rparr>]"]
  by (simp add: denial_key_def upt_Suc_shift del: upt_Suc)

section \<open>Segments and tools\<close>


lemmas sig_defs = TextDelta_def ToolInvoked_def TurnSucceeded_def TurnFailed_def assistantEvent_def
lemmas handle_defs = handleStreamMessage_def handleBlock_def endPendingTool_def
lemmas chat_defs = onChunk_def onSegmentEnd_def onToolStart_def onToolEnd_def onComplete_def onError_def

section \<open>The terminal event\<close>

lemma dedup_filter_Nil_iff: "dedup_filter S seen ds = [] \<longleftrightarrow> (\<forall>d\<in>set ds. denial_key S d \<in> seen)"
  by (induction ds arbitrary: seen) (auto simp: Let_def)

lemma dedup_Nil_iff: "deduplicatePermissionDenials S ds = [] \<longleftrightarrow> ds = []"
  unfolding deduplicatePermissionDenials_def by (cases ds) (auto simp: Let_def)


lemma applyCallbacks_append:
  "applyCallbacks S cid st (xs @ ys) =
     (let (st1, es1) = applyCallbacks S cid st xs; (st2, es2) = applyCallbacks S cid st1 ys
      in (st2, es1 @ es2))"
  by (induction xs arbitrary: st) (auto simp: Let_def split: prod.splits)

lemma result_events:
  assumes "msg_type m = ''result''" and "is_error m \<noteq> Some True"
  shows "snd (applyCallbacks S cid st (snd (handleStreamMessage s m))) =
           map ToolEnd (pendingTool s)
           @ [let dd = deduplicatePermissionDenials S (case permission_denials m of None \<Rightarrow> [] | Some ds \<Rightarrow> ds)
              in if dd \<noteq> [] then PermissionRequired cid dd
                 else if segments st \<noteq> [] \<or> trim (state_currentSegment st) \<noteq> [] then Complete cid
                 else NoResponse cid ''This command completed but produced no visible output.'']"
  using assms
  by (auto simp: handle_defs chat_defs pendingTool_def Let_def dedup_Nil_iff
        deduplicatePermissionDenials_def
      split: option.splits)


lemma handleAll_append:
  "handleAll s (xs @ ys) =
     (let (s1, cs1) = handleAll s xs; (s2, cs2) = handleAll s1 ys in (s2, cs1 @ cs2))"
  by (induction xs arbitrary: s) (auto simp: Let_def split: prod.splits)

lemma quiet_block:
  assumes "handleBlock s b = (s', cs)" and "\<forall>c\<in>set cs. \<not> isChunk c \<and> \<not> isToolStart c"
  shows "s' = s \<and> cs = []"
  using assms by (auto simp: handleBlock_def Let_def split: if_splits prod.splits)

lemma quiet_blocks:
  assumes "handleBlocks s bs = (s', cs :: 'i callback list)" and "\<forall>c\<in>set cs. \<not> isChunk c \<and> \<not> isToolStart c"
  shows "s' = s \<and> cs = []"
  using assms
proof (induction bs arbitrary: s s' cs)
  case Nil
  then show ?case by simp
next
  case (Cons b bs)
  obtain s1 cs1 where b: "handleBlock s b = (s1, cs1 :: 'i callback list)" by fastforce
  obtain s2 cs2 where bs: "handleBlocks s1 bs = (s2, cs2 :: 'i callback list)" by fastforce
  from Cons.prems b bs have eq: "s' = s2" "cs = cs1 @ cs2" by (simp_all add: Let_def)
  with Cons.prems(2) have q1: "\<forall>c\<in>set cs1. \<not> isChunk c \<and> \<not> isToolStart c"
    and q2: "\<forall>c\<in>set cs2. \<not> isChunk c \<and> \<not> isToolStart c" by auto
  from quiet_block [OF b q1] have "s1 = s" "cs1 = []" by simp_all
  moreover from Cons.IH [OF bs q2] have "s2 = s1" "cs2 = []" by simp_all
  ultimately show ?case using eq by simp
qed

lemma quiet_message:
  assumes "handleStreamMessage s m = (s', cs)" and "msg_type m \<noteq> ''result''"
    and "\<forall>c\<in>set cs. \<not> isChunk c \<and> \<not> isToolStart c"
  shows "cs = [] \<and> currentSegment s' = currentSegment s \<and> lastToolName s' = lastToolName s"
proof (cases "msg_type m = ''assistant''")
  case True
  show ?thesis
  proof (cases "message m")
    case None
    with True assms show ?thesis by (simp add: handleStreamMessage_def)
  next
    case (Some b)
    show ?thesis
    proof (cases "content b")
      case (Blocks bs)
      with True Some assms(1) have "handleBlocks s bs = (s', cs)"
        by (simp add: handleStreamMessage_def)
      from quiet_blocks [OF this assms(3)] show ?thesis by simp
    next
      case (Str x)
      with True Some assms show ?thesis by (simp add: handleStreamMessage_def)
    qed
  qed
next
  case False
  with assms show ?thesis
    by (auto simp: handleStreamMessage_def Let_def split: if_splits option.splits content.splits)
qed

lemma quiet_stream:
  assumes "handleAll s ms = (s', cs :: 'i callback list)" and "\<forall>x\<in>set ms. msg_type x \<noteq> ''result''"
    and "\<forall>c\<in>set cs. \<not> isChunk c \<and> \<not> isToolStart c"
  shows "cs = [] \<and> currentSegment s' = currentSegment s \<and> lastToolName s' = lastToolName s"
  using assms
proof (induction ms arbitrary: s s' cs)
  case Nil
  then show ?case by simp
next
  case (Cons m ms)
  obtain s1 cs1 where m: "handleStreamMessage s m = (s1, cs1)" by fastforce
  obtain s2 cs2 where ms: "handleAll s1 ms = (s2, cs2)" by fastforce
  from Cons.prems(1) m ms have eq: "s' = s2" "cs = cs1 @ cs2" by (simp_all add: Let_def)
  with Cons.prems(3) have q1: "\<forall>c\<in>set cs1. \<not> isChunk c \<and> \<not> isToolStart c"
    and q2: "\<forall>c\<in>set cs2. \<not> isChunk c \<and> \<not> isToolStart c" by auto
  from Cons.prems(2) have r1: "msg_type m \<noteq> ''result''" and r2: "\<forall>x\<in>set ms. msg_type x \<noteq> ''result''"
    by simp_all
  from quiet_message [OF m r1 q1] Cons.IH [OF ms r2 q2] eq show ?case by simp
qed

text \<open>
  Claim C5, as the code has it. A result event whose \<open>is_error\<close> is not true ends a
  pending tool and then sends exactly one event: permission_required when the
  deduplicated denials are not empty; otherwise complete when a segment was finalized or
  the current segment is not empty after trimming; otherwise no_response. When the events
  before it (no result event among them) called neither \<open>onChunk\<close> nor
  \<open>onToolStart\<close>, and it has no denials, no_response is all that the turn sends.
\<close>

theorem terminal_event_choice:
  assumes "msg_type m = ''result''" and "is_error m \<noteq> Some True"
  shows "snd (applyCallbacks S cid st (snd (handleStreamMessage s m))) =
           map ToolEnd (pendingTool s)
           @ [let dd = deduplicatePermissionDenials S (case permission_denials m of None \<Rightarrow> [] | Some ds \<Rightarrow> ds)
              in if dd \<noteq> [] then PermissionRequired cid dd
                 else if segments st \<noteq> [] \<or> trim (state_currentSegment st) \<noteq> [] then Complete cid
                 else NoResponse cid ''This command completed but produced no visible output.'']
       \<and> (currentSegment s = [] \<longrightarrow> lastToolName s = None \<longrightarrow>
            (\<forall>x\<in>set pre. msg_type x \<noteq> ''result'') \<longrightarrow>
            (\<forall>c\<in>set (snd (handleAll s pre)). \<not> isChunk c \<and> \<not> isToolStart c) \<longrightarrow>
            (permission_denials m = None \<or> permission_denials m = Some []) \<longrightarrow>
            snd (applyCallbacks S cid initialState (snd (handleAll s (pre @ [m]))))
              = [NoResponse cid ''This command completed but produced no visible output.''])"
proof (intro conjI impI)
  show "snd (applyCallbacks S cid st (snd (handleStreamMessage s m))) =
           map ToolEnd (pendingTool s)
           @ [let dd = deduplicatePermissionDenials S (case permission_denials m of None \<Rightarrow> [] | Some ds \<Rightarrow> ds)
              in if dd \<noteq> [] then PermissionRequired cid dd
                 else if segments st \<noteq> [] \<or> trim (state_currentSegment st) \<noteq> [] then Complete cid
                 else NoResponse cid ''This command completed but produced no visible output.'']"
    by (rule result_events [OF assms])
next
  assume fresh: "currentSegment s = []" "lastToolName s = None"
    and nores: "\<forall>x\<in>set pre. msg_type x \<noteq> ''result''"
    and quiet: "\<forall>c\<in>set (snd (handleAll s pre)). \<not> isChunk c \<and> \<not> isToolStart c"
    and nod: "permission_denials m = None \<or> permission_denials m = Some []"
  obtain s1 cs1 where pre: "handleAll s pre = (s1, cs1)" by fastforce
  from quiet pre have "\<forall>c\<in>set cs1. \<not> isChunk c \<and> \<not> isToolStart c" by simp
  from quiet_stream [OF pre nores this] fresh
  have s1: "cs1 = []" "currentSegment s1 = []" "lastToolName s1 = None" by simp_all
  obtain s2 cs2 where m: "handleStreamMessage s1 m = (s2, cs2)" by fastforce
  have all: "snd (handleAll s (pre @ [m])) = snd (handleStreamMessage s1 m)"
    using pre s1(1) m by (simp add: handleAll_append Let_def)
  have dd: "deduplicatePermissionDenials S (case permission_denials m of None \<Rightarrow> [] | Some ds \<Rightarrow> ds) = []"
    using nod by (auto simp: deduplicatePermissionDenials_def)
  show "snd (applyCallbacks S cid initialState (snd (handleAll s (pre @ [m]))))
          = [NoResponse cid ''This command completed but produced no visible output.'']"
    unfolding all result_events [OF assms]
    using s1 dd by (simp add: pendingTool_def initialState_def trim_def)
qed


text \<open>
  A turn with a system/init event and a result event sends no_response alone.
\<close>

theorem terminal_event_choice_witness:
  "snd (applyCallbacks (\<lambda>j::unit. []) ''c'' initialState
     (snd (handleAll (newSession 7 ''c'' None) ([SessionEstablished ''s1''] @ [TurnSucceeded [] None]))))
   = [NoResponse ''c'' ''This command completed but produced no visible output.'']"
proof -
  have r: "msg_type (TurnSucceeded [] None :: unit StreamMessage) = ''result''"
    and e: "is_error (TurnSucceeded [] None :: unit StreamMessage) \<noteq> Some True"
    by (simp_all add: TurnSucceeded_def)
  have fresh: "currentSegment (newSession 7 ''c'' None) = []" "lastToolName (newSession 7 ''c'' None) = None"
    by (simp_all add: newSession_def)
  have nores: "\<forall>x\<in>set [SessionEstablished ''s1'' :: unit StreamMessage]. msg_type x \<noteq> ''result''"
    by (simp add: SessionEstablished_def)
  have quiet: "\<forall>c\<in>set (snd (handleAll (newSession 7 ''c'' None) [SessionEstablished ''s1'' :: unit StreamMessage])).
      \<not> isChunk c \<and> \<not> isToolStart c"
    by (simp add: SessionEstablished_def handleStreamMessage_def)
  have nod: "permission_denials (TurnSucceeded [] None :: unit StreamMessage) = None
      \<or> permission_denials (TurnSucceeded [] None :: unit StreamMessage) = Some []"
    by (simp add: TurnSucceeded_def)
  from terminal_event_choice [OF r e, of "\<lambda>j::unit. []" "''c''" initialState "newSession 7 ''c'' None"
      "[SessionEstablished ''s1'']"] fresh nores quiet nod
  show ?thesis by blast
qed

text \<open>
  Claim C5 as stated fails: after a text delta of one space the current segment holds
  text, and the result event sends no_response, not complete.
\<close>

theorem whitespace_text_counterexample:
  "state_currentSegment (fst (applyCallbacks (\<lambda>j::unit. []) ''c'' initialState
      (snd (handleAll (newSession 7 ''c'' None) [TextDelta '' '', TurnSucceeded [] None])))) = '' ''
   \<and> snd (applyCallbacks (\<lambda>j::unit. []) ''c'' initialState
      (snd (handleAll (newSession 7 ''c'' None) [TextDelta '' '', TurnSucceeded [] None])))
     = [Chunk '' '', NoResponse ''c'' ''This command completed but produced no visible output.'']"
  by (simp add: sig_defs handle_defs chat_defs initialState_def newSession_def trim_def js_ws_def Let_def)

section \<open>White space\<close>

lemma segment_end_block:
  "OnSegmentEnd c \<in> set (snd (handleBlock s b :: StreamSession \<times> 'i callback list)) \<Longrightarrow> trim c \<noteq> []"
  by (auto simp: handleBlock_def endPendingTool_def Let_def split: if_splits option.splits prod.splits)

lemma segment_end_blocks:
  "OnSegmentEnd c \<in> set (snd (handleBlocks s bs :: StreamSession \<times> 'i callback list)) \<Longrightarrow> trim c \<noteq> []"
proof (induction bs arbitrary: s)
  case Nil
  then show ?case by simp
next
  case (Cons b bs)
  obtain s1 cs1 where b: "handleBlock s b = (s1, cs1 :: 'i callback list)" by fastforce
  obtain s2 cs2 where bs: "handleBlocks s1 bs = (s2, cs2 :: 'i callback list)" by fastforce
  from Cons.prems b bs have "OnSegmentEnd c \<in> set cs1 \<or> OnSegmentEnd c \<in> set cs2"
    by (simp add: Let_def)
  then show ?case
  proof
    assume "OnSegmentEnd c \<in> set cs1"
    with b have "OnSegmentEnd c \<in> set (snd (handleBlock s b :: StreamSession \<times> 'i callback list))"
      by simp
    then show ?thesis by (rule segment_end_block)
  next
    assume "OnSegmentEnd c \<in> set cs2"
    with bs have "OnSegmentEnd c \<in> set (snd (handleBlocks s1 bs :: StreamSession \<times> 'i callback list))"
      by simp
    then show ?thesis by (rule Cons.IH)
  qed
qed

lemma segment_end_message:
  "OnSegmentEnd c \<in> set (snd (handleStreamMessage s m :: StreamSession \<times> 'i callback list)) \<Longrightarrow> trim c \<noteq> []"
  by (auto simp: handleStreamMessage_def endPendingTool_def Let_def
      dest: segment_end_blocks
      split: if_splits option.splits content.splits prod.splits)

lemma segment_end_stream:
  "OnSegmentEnd c \<in> set (snd (handleAll s ms :: StreamSession \<times> 'i callback list)) \<Longrightarrow> trim c \<noteq> []"
proof (induction ms arbitrary: s)
  case Nil
  then show ?case by simp
next
  case (Cons m ms)
  obtain s1 cs1 where m: "handleStreamMessage s m = (s1, cs1 :: 'i callback list)" by fastforce
  obtain s2 cs2 where ms: "handleAll s1 ms = (s2, cs2 :: 'i callback list)" by fastforce
  from Cons.prems m ms have "OnSegmentEnd c \<in> set cs1 \<or> OnSegmentEnd c \<in> set cs2"
    by (simp add: Let_def)
  then show ?case
  proof
    assume "OnSegmentEnd c \<in> set cs1"
    with m have "OnSegmentEnd c \<in> set (snd (handleStreamMessage s m :: StreamSession \<times> 'i callback list))"
      by simp
    then show ?thesis by (rule segment_end_message)
  next
    assume "OnSegmentEnd c \<in> set cs2"
    with ms have "OnSegmentEnd c \<in> set (snd (handleAll s1 ms :: StreamSession \<times> 'i callback list))"
      by simp
    then show ?thesis by (rule Cons.IH)
  qed
qed


lemma callback_keeps_segments:
  assumes "nonBlankSegments st" and "createStreamingCallbacks S cid st c = (st', es)"
  shows "nonBlankSegments st' \<and> (\<forall>cv x. SegmentEnd cv x \<in> set es \<longrightarrow> trim x \<noteq> [])"
  using assms
  by (cases c) (auto simp: nonBlankSegments_def chat_defs Let_def split: if_splits)

lemma callbacks_keep_segments:
  assumes "nonBlankSegments st" and "applyCallbacks S cid st cs = (st', es)"
  shows "nonBlankSegments st' \<and> (\<forall>cv x. SegmentEnd cv x \<in> set es \<longrightarrow> trim x \<noteq> [])"
  using assms
proof (induction cs arbitrary: st st' es)
  case Nil
  then show ?case by simp
next
  case (Cons c cs)
  obtain st1 es1 where c: "createStreamingCallbacks S cid st c = (st1, es1)" by fastforce
  obtain fin es2 where cs: "applyCallbacks S cid st1 cs = (fin, es2)" by fastforce
  from Cons.prems(2) c cs have eq: "st' = fin" "es = es1 @ es2" by (simp_all add: Let_def)
  from callback_keeps_segments [OF Cons.prems(1) c]
  have a: "nonBlankSegments st1" "\<forall>cv x. SegmentEnd cv x \<in> set es1 \<longrightarrow> trim x \<noteq> []" by simp_all
  from Cons.IH [OF a(1) cs] a(2) eq show ?case by auto
qed

lemma dbCalls_subset: "set (fst (dbCalls db_ok cs)) \<subseteq> set cs"
  by (induction cs) (auto simp: Let_def split: prod.splits)

lemma persisted_contents:
  assumes "nonBlankSegments st"
    and "Db (CreateMessage cv r x) \<in> set (fst (persistStreamResult db_ok gen conv uid st))"
  shows "trim x \<noteq> []"
proof -
  let ?upd = "(if truthy (result_sessionId (state_result st)) \<and>
                  result_sessionId (state_result st) \<noteq> conv_claudeSessionId conv
               then [UpdateClaudeSessionId (conv_id conv) (the (result_sessionId (state_result st)))]
               else [])"
  let ?all = "(if trim (state_currentSegment st) \<noteq> []
               then segments st @ [state_currentSegment st] else segments st)"
  let ?stores = "(if (case result_permissionDenials (state_result st) of None \<Rightarrow> False | Some ds \<Rightarrow> 0 < length ds)
             then storeSegments (conv_id conv) (segments st) (state_currentSegment st)
             else map (\<lambda>segmentContent. CreateMessage (conv_id conv) ''assistant'' segmentContent) ?all)"
  have "CreateMessage cv r x \<in> set (fst (dbCalls db_ok (?upd @ ?stores)))"
    using assms(2)
    by (auto simp: persistStreamResult_def Let_def generateAndUpdateTitle_def
        split: prod.splits if_splits option.splits)
  with dbCalls_subset [of db_ok "?upd @ ?stores"]
  have "CreateMessage cv r x \<in> set (?upd @ ?stores)" by blast
  then show ?thesis
    using assms(1)
    by (auto simp: nonBlankSegments_def storeSegments_def split: if_splits)
qed


lemma initial_nonBlank: "nonBlankSegments initialState"
  by (simp add: nonBlankSegments_def initialState_def)

text \<open>
  Claim C9. Every \<open>onSegmentEnd\<close> call of a stream carries text that is not only white
  space; a tool invocation met with a current segment of white space only calls
  \<open>onToolStart\<close> and nothing else; the \<open>onSegmentEnd\<close> callback given white space only
  sends nothing and keeps no segment; every segment_end event sent in a turn has text that
  is not only white space; with no finalized segment and a current segment of white space
  only, \<open>onComplete\<close> without denials sends no_response; and every assistant message
  that \<open>persistStreamResult\<close> hands to the database after a turn has text that is not
  only white space.
\<close>

theorem whitespace_only_text_is_empty:
  "(OnSegmentEnd c \<in> set (snd (handleAll s ms :: StreamSession \<times> 'i callback list)) \<longrightarrow> trim c \<noteq> [])
   \<and> (trim (currentSegment s) = [] \<longrightarrow>
        snd (handleBlock s \<lparr>block_type = ''tool_use'', block_text = t, block_name = Some n\<rparr>
               :: StreamSession \<times> 'i callback list)
          = (if n = [] then [] else [OnToolStart n]))
   \<and> (trim x = [] \<longrightarrow>
        onSegmentEnd cid (st :: 'i StreamingState) x = (st\<lparr>state_currentSegment := []\<rparr>, []))
   \<and> (SegmentEnd cv y \<in> set (snd (applyCallbacks S cid initialState cbs)) \<longrightarrow> trim y \<noteq> [])
   \<and> (trim (state_currentSegment st) = [] \<longrightarrow> segments st = [] \<longrightarrow>
        snd (onComplete S cid st r sid None)
          = [NoResponse cid ''This command completed but produced no visible output.''])
   \<and> (Db (CreateMessage cw rl z)
         \<in> set (fst (persistStreamResult db_ok gen conv uid (fst (applyCallbacks S cid initialState cbs))))
       \<longrightarrow> trim z \<noteq> [])"
proof (intro conjI impI)
  assume "OnSegmentEnd c \<in> set (snd (handleAll s ms :: StreamSession \<times> 'i callback list))"
  then show "trim c \<noteq> []" by (rule segment_end_stream)
next
  assume "trim (currentSegment s) = []"
  then show "snd (handleBlock s \<lparr>block_type = ''tool_use'', block_text = t, block_name = Some n\<rparr>
               :: StreamSession \<times> 'i callback list)
          = (if n = [] then [] else [OnToolStart n])"
    by (simp add: handleBlock_def)
next
  assume "trim x = []"
  then show "onSegmentEnd cid st x = (st\<lparr>state_currentSegment := []\<rparr>, [])"
    by (simp add: onSegmentEnd_def)
next
  assume a: "SegmentEnd cv y \<in> set (snd (applyCallbacks S cid initialState cbs))"
  obtain st' es where r: "applyCallbacks S cid initialState cbs = (st', es)" by fastforce
  from callbacks_keep_segments [OF initial_nonBlank r] a r show "trim y \<noteq> []" by simp
next
  assume "trim (state_currentSegment st) = []" and "segments st = []"
  then show "snd (onComplete S cid st r sid None)
          = [NoResponse cid ''This command completed but produced no visible output.'']"
    by (simp add: onComplete_def)
next
  assume a: "Db (CreateMessage cw rl z)
         \<in> set (fst (persistStreamResult db_ok gen conv uid (fst (applyCallbacks S cid initialState cbs))))"
  obtain st' es where r: "applyCallbacks S cid initialState cbs = (st', es)" by fastforce
  from callbacks_keep_segments [OF initial_nonBlank r] have "nonBlankSegments st'" by simp
  from persisted_contents [OF this] a r show "trim z \<noteq> []" by simp
qed


text \<open>
  The six parts at a session and a state whose current segment is one space.
\<close>

theorem whitespace_only_text_is_empty_witness:
  "OnSegmentEnd '' hi''
     \<in> set (snd (handleAll ((newSession 7 ''c'' None)\<lparr>currentSegment := '' ''\<rparr>)
               [TextDelta ''hi'', ToolInvoked ''Bash''] :: StreamSession \<times> unit callback list))
   \<and> trim '' hi'' \<noteq> []
   \<and> snd (handleBlock ((newSession 7 ''c'' None)\<lparr>currentSegment := '' ''\<rparr>)
            \<lparr>block_type = ''tool_use'', block_text = None, block_name = Some ''Bash''\<rparr>
          :: StreamSession \<times> unit callback list) = [OnToolStart ''Bash'']
   \<and> onSegmentEnd ''c'' ((initialState :: unit StreamingState)\<lparr>state_currentSegment := '' ''\<rparr>) '' ''
       = ((initialState :: unit StreamingState)\<lparr>state_currentSegment := []\<rparr>, [])
   \<and> SegmentEnd ''c'' ''hi''
       \<in> set (snd (applyCallbacks (\<lambda>j::unit. []) ''c'' initialState
            [OnChunk ''hi'', OnSegmentEnd ''hi'', OnChunk '' '', OnComplete [] None None]))
   \<and> snd (onComplete (\<lambda>j::unit. []) ''c'' (initialState\<lparr>state_currentSegment := '' ''\<rparr>) [] None None)
       = [NoResponse ''c'' ''This command completed but produced no visible output.'']
   \<and> Db (CreateMessage ''c'' ''assistant'' ''hi'')
       \<in> set (fst (persistStreamResult (\<lambda>c. True) None
             \<lparr>conv_id = ''c'', conv_claudeSessionId = None, conv_title = None\<rparr> ''u''
             (fst (applyCallbacks (\<lambda>j::unit. []) ''c'' initialState
                [OnChunk ''hi'', OnSegmentEnd ''hi'', OnChunk '' '', OnComplete [] None None]))))"
  using whitespace_only_text_is_empty [of "'' hi''" "(newSession 7 ''c'' None)\<lparr>currentSegment := '' ''\<rparr>"
      "[TextDelta ''hi'', ToolInvoked ''Bash'']" None "''Bash''" "'' ''" "''c''"
      "initialState\<lparr>state_currentSegment := '' ''\<rparr>" "''c''" "''hi''" "\<lambda>j::unit. []"
      "[OnChunk ''hi'', OnSegmentEnd ''hi'', OnChunk '' '', OnComplete [] None None]"
      "[]" None "''c''" "''assistant''" "''hi''" "\<lambda>c. True" None
      "\<lparr>conv_id = ''c'', conv_claudeSessionId = None, conv_title = None\<rparr>" "''u''"]
  by (simp add: sig_defs handle_defs chat_defs initialState_def newSession_def trim_def js_ws_def Let_def
      persistStreamResult_def generateAndUpdateTitle_def deduplicatePermissionDenials_def)

section \<open>The session id\<close>

lemma sessionId_handleBlock:
  "sessionId (fst (handleBlock s b :: StreamSession \<times> 'i callback list)) = sessionId s"
  by (simp add: handleBlock_def endPendingTool_def Let_def split: option.splits prod.splits)

lemma sessionId_handleBlocks:
  "sessionId (fst (handleBlocks s bs :: StreamSession \<times> 'i callback list)) = sessionId s"
proof (induction bs arbitrary: s)
  case Nil
  show ?case by simp
next
  case (Cons b bs)
  obtain s1 cs1 where b: "handleBlock s b = (s1, cs1 :: 'i callback list)" by fastforce
  obtain s2 cs2 where bs: "handleBlocks s1 bs = (s2, cs2 :: 'i callback list)" by fastforce
  from b have "sessionId s1 = sessionId s"
    using sessionId_handleBlock [where ?'i = 'i, of s b] by simp
  moreover from bs have "sessionId s2 = sessionId s1"
    using Cons.IH [of s1] by simp
  ultimately show ?case using b bs by (simp add: Let_def)
qed

lemma sessionId_handleStreamMessage:
  "sessionId (fst (handleStreamMessage s m :: StreamSession \<times> 'i callback list))
     = (if isInit m then session_id m else sessionId s)"
  by (auto simp: handleStreamMessage_def isInit_def Let_def sessionId_handleBlocks endPendingTool_def
      split: option.splits content.splits prod.splits)

lemma mostRecentInit_Cons:
  "mostRecentInit (m # ms) =
     (case mostRecentInit ms of Some x \<Rightarrow> Some x | None \<Rightarrow> if isInit m then Some m else None)"
  by (auto simp: mostRecentInit_def split: list.splits)

lemma sessionId_handleAll:
  "sessionId (fst (handleAll s ms :: StreamSession \<times> 'i callback list)) = observedSessionId (sessionId s) ms"
proof (induction ms arbitrary: s)
  case Nil
  show ?case by (simp add: observedSessionId_def mostRecentInit_def)
next
  case (Cons m ms)
  obtain s1 cs1 where m: "handleStreamMessage s m = (s1, cs1 :: 'i callback list)" by fastforce
  obtain s2 cs2 where ms: "handleAll s1 ms = (s2, cs2 :: 'i callback list)" by fastforce
  from m have s1: "sessionId s1 = (if isInit m then session_id m else sessionId s)"
    using sessionId_handleStreamMessage [where ?'i = 'i, of s m] by simp
  from ms have "sessionId s2 = observedSessionId (sessionId s1) ms"
    using Cons.IH [of s1] by simp
  also have "\<dots> = observedSessionId (sessionId s) (m # ms)"
    unfolding s1 by (simp add: observedSessionId_def mostRecentInit_Cons split: option.splits)
  finally show ?case using m ms by (simp add: Let_def)
qed

text \<open>
  A result event whose \<open>is_error\<close> is not true, handled after the events \<open>ms\<close>,
  calls \<open>onComplete\<close> last, with the session id of the most recent system/init event
  among \<open>ms\<close> that carries one, or else the session id the session started with.
  \<open>onComplete\<close> stores that value in the result, and \<open>persistStreamResult\<close> calls
  \<open>updateClaudeSessionId\<close> exactly when the stored value is present, not empty, and
  differs from the conversation's token.
\<close>

lemma session_id_of_events:
  assumes "msg_type r = ''result''" and "is_error r \<noteq> Some True"
  shows "snd (handleAll s (ms @ [r])) =
           snd (handleAll s ms) @ map OnToolEnd (pendingTool (fst (handleAll s ms)))
           @ [OnComplete (or_else (result r) []) (observedSessionId (sessionId s) ms)
                (case permission_denials r of None \<Rightarrow> None | Some ds \<Rightarrow> if ds = [] then None else Some ds)]
       \<and> sessionId (newSession proc cid claudeSessionId) = claudeSessionId
       \<and> result_sessionId (state_result (fst (onComplete S cid st res sid pd))) = sid
       \<and> (Db (UpdateClaudeSessionId cv x) \<in> set (fst (persistStreamResult db_ok gen conv uid fin))
            \<longleftrightarrow> cv = conv_id conv \<and> result_sessionId (state_result fin) = Some x \<and> x \<noteq> []
                \<and> result_sessionId (state_result fin) \<noteq> conv_claudeSessionId conv)"
proof (intro conjI)
  obtain s1 cs1 where pre: "handleAll s ms = (s1, cs1 :: 'a callback list)" by fastforce
  from pre have sid: "sessionId s1 = observedSessionId (sessionId s) ms"
    using sessionId_handleAll [where ?'i = 'a, of s ms] by simp
  show "snd (handleAll s (ms @ [r])) =
           snd (handleAll s ms) @ map OnToolEnd (pendingTool (fst (handleAll s ms)))
           @ [OnComplete (or_else (result r) []) (observedSessionId (sessionId s) ms)
                (case permission_denials r of None \<Rightarrow> None | Some ds \<Rightarrow> if ds = [] then None else Some ds)]"
    using assms pre sid
    by (auto simp: handleAll_append Let_def handleStreamMessage_def endPendingTool_def pendingTool_def
        split: option.splits prod.splits)
next
  show "sessionId (newSession proc cid claudeSessionId) = claudeSessionId"
    by (simp add: newSession_def)
next
  show "result_sessionId (state_result (fst (onComplete S cid st res sid pd))) = sid"
    by (simp add: onComplete_def Let_def)
next
  let ?res = "state_result fin"
  let ?upd = "(if truthy (result_sessionId ?res) \<and> result_sessionId ?res \<noteq> conv_claudeSessionId conv
               then [UpdateClaudeSessionId (conv_id conv) (the (result_sessionId ?res))]
               else [])"
  let ?all = "(if trim (state_currentSegment fin) \<noteq> []
               then segments fin @ [state_currentSegment fin] else segments fin)"
  let ?stores = "(if (case result_permissionDenials ?res of None \<Rightarrow> False | Some ds \<Rightarrow> 0 < length ds)
             then storeSegments (conv_id conv) (segments fin) (state_currentSegment fin)
             else map (\<lambda>segmentContent. CreateMessage (conv_id conv) ''assistant'' segmentContent) ?all)"
  have out: "Db (UpdateClaudeSessionId cv x) \<in> set (fst (persistStreamResult db_ok gen conv uid fin))
      \<longleftrightarrow> UpdateClaudeSessionId cv x \<in> set (fst (dbCalls db_ok (?upd @ ?stores)))"
    by (auto simp: persistStreamResult_def Let_def generateAndUpdateTitle_def
        split: prod.splits if_splits option.splits)
  have nostore: "UpdateClaudeSessionId cv x \<notin> set ?stores"
    by (auto simp: storeSegments_def)
  have calls: "UpdateClaudeSessionId cv x \<in> set (fst (dbCalls db_ok (?upd @ ?stores)))
      \<longleftrightarrow> UpdateClaudeSessionId cv x \<in> set ?upd"
  proof
    assume "UpdateClaudeSessionId cv x \<in> set (fst (dbCalls db_ok (?upd @ ?stores)))"
    with dbCalls_subset [of db_ok "?upd @ ?stores"] nostore
    show "UpdateClaudeSessionId cv x \<in> set ?upd" by auto
  next
    assume "UpdateClaudeSessionId cv x \<in> set ?upd"
    then show "UpdateClaudeSessionId cv x \<in> set (fst (dbCalls db_ok (?upd @ ?stores)))"
      by (auto simp: Let_def split: if_splits prod.splits)
  qed
  show "Db (UpdateClaudeSessionId cv x) \<in> set (fst (persistStreamResult db_ok gen conv uid fin))
            \<longleftrightarrow> cv = conv_id conv \<and> result_sessionId (state_result fin) = Some x \<and> x \<noteq> []
                \<and> result_sessionId (state_result fin) \<noteq> conv_claudeSessionId conv"
    unfolding out calls
    by (cases "result_sessionId (state_result fin)") auto
qed


section \<open>The decoder\<close>
lemma split_nl_not_Nil: "split_nl s \<noteq> []"
  by (induction s) (auto split: list.splits)

lemma split_nl_append:
  "split_nl (x @ y) = butlast (split_nl x) @ split_nl (last (split_nl x) @ y)"
proof (induction x)
  case Nil
  show ?case by simp
next
  case (Cons c x)
  show ?case
  proof (cases "c = CHR 0x0A")
    case True
    with Cons show ?thesis by (simp add: split_nl_not_Nil)
  next
    case False
    obtain l ls where sx: "split_nl x = l # ls"
      using split_nl_not_Nil [of x] by (cases "split_nl x") auto
    show ?thesis
    proof (cases ls)
      case Nil
      with False sx Cons show ?thesis by (simp split: list.splits)
    next
      case (Cons l2 ls2)
      with False sx Cons.IH show ?thesis by (simp split: list.splits)
    qed
  qed
qed

lemma onData_onData:
  "onData prs h (onData prs h sb c) d = onData prs h sb (c @ d)"
proof -
  have "split_nl (snd sb @ c @ d)
      = butlast (split_nl (snd sb @ c)) @ split_nl (last (split_nl (snd sb @ c)) @ d)"
    using split_nl_append [of "snd sb @ c" d] by simp
  then show ?thesis
    by (simp add: onData_def Let_def butlast_append split_nl_not_Nil)
qed

lemma onData_chunks:
  "foldl (onData prs h) (onData prs h sb c) cs = onData prs h sb (c @ concat cs)"
proof (induction cs arbitrary: c)
  case Nil
  show ?case by simp
next
  case (Cons d cs)
  have "foldl (onData prs h) (onData prs h sb c) (d # cs)
      = foldl (onData prs h) (onData prs h sb (c @ d)) cs"
    by (simp add: onData_onData)
  also have "\<dots> = onData prs h sb ((c @ d) @ concat cs)" by (rule Cons.IH)
  finally show ?case by simp
qed

lemma onData_empty: "onData prs h (s, []) [] = (s, [])"
  by (simp add: onData_def)

lemma chunks_as_one:
  "foldl (onData prs h) (s, []) chunks = foldl (onData prs h) (s, []) [concat chunks]"
proof (cases chunks)
  case Nil
  then show ?thesis by (simp add: onData_empty)
next
  case (Cons c cs)
  then show ?thesis using onData_chunks [of prs h "(s, [])" c cs] by simp
qed

lemma readLoop_data:
  "readLoop prs kt p sb t (map Data chunks) = (foldl (onData prs dispatch) sb chunks, t)"
  by (induction chunks arbitrary: sb) simp_all

text \<open>
  Claim C7. Whatever is done with a parsed object, reading a stream in chunks and then
  parsing the remaining buffer gives the same as reading its whole text as one chunk; so
  the parsed objects are the same, in the same order; so are the text and session id that
  the loop of \<open>runClaude\<close> collects; and a turn of \<open>runClaudeStreaming\<close> whose
  stream ends normally has the same effects. This holds for every text, not only for
  valid newline-delimited JSON.
\<close>

theorem chunking_is_irrelevant:
  "decodeStream prs h s chunks = decodeStream prs h s [concat chunks]
   \<and> parsedObjects prs chunks = parsedObjects prs [concat chunks]
   \<and> runClaudeLoop prs chunks = runClaudeLoop prs [concat chunks]
   \<and> runClaudeStreaming (e\<lparr>reads := map Data chunks, read_end := Done\<rparr>) reg msg cid sid
       = runClaudeStreaming (e\<lparr>reads := [Data (concat chunks)], read_end := Done\<rparr>) reg msg cid sid"
proof (intro conjI)
  show "decodeStream prs h s chunks = decodeStream prs h s [concat chunks]"
    unfolding decodeStream_def using chunks_as_one [of prs h s chunks] by simp
  show "parsedObjects prs chunks = parsedObjects prs [concat chunks]"
    unfolding parsedObjects_def decodeStream_def
    using chunks_as_one [of prs "\<lambda>acc m. acc @ [m]" "[]" chunks] by simp
  show "runClaudeLoop prs chunks = runClaudeLoop prs [concat chunks]"
    unfolding runClaudeLoop_def
    using chunks_as_one [of prs runClaudeEvent "([], [])" chunks] by simp
  show "runClaudeStreaming (e\<lparr>reads := map Data chunks, read_end := Done\<rparr>) reg msg cid sid
       = runClaudeStreaming (e\<lparr>reads := [Data (concat chunks)], read_end := Done\<rparr>) reg msg cid sid"
    using chunks_as_one [of "parse e" dispatch "(newSession (spawned e) cid sid, [])" chunks]
    by (simp add: runClaudeStreaming_def readStdout_def afterExit_def readLoop_data Let_def
        split: stdin_result.splits)
qed


lemma parseLines_simps:
  "parseLines textLine = Some (TextDelta ''hi'')"
  "parseLines resultLine = Some (TurnSucceeded [] None)"
  "parseLines noiseLine = None"
  by (simp_all add: parseLines_def textLine_def resultLine_def noiseLine_def)

lemma trim_lines:
  "trim textLine \<noteq> []" "trim resultLine \<noteq> []" "trim noiseLine \<noteq> []"
  by (simp_all add: trim_def js_ws_def textLine_def resultLine_def noiseLine_def)

lemma trim_Nil: "trim [] = []"
  by (simp add: trim_def)

lemma split_nl_line: "CHR 0x0A \<notin> set l \<Longrightarrow> split_nl (l @ CHR 0x0A # r) = l # split_nl r"
  by (induction l) (auto split: list.splits)

lemma split_nl_last_line: "CHR 0x0A \<notin> set l \<Longrightarrow> split_nl l = [l]"
  by (induction l) (auto split: list.splits)

lemma no_nl_lines:
  "CHR 0x0A \<notin> set textLine" "CHR 0x0A \<notin> set resultLine" "CHR 0x0A \<notin> set noiseLine"
  by (simp_all add: textLine_def resultLine_def noiseLine_def)

text \<open>
  Two lines cut into three chunks, inside the first line and inside the second.
\<close>

theorem chunking_is_irrelevant_witness:
  "parsedObjects parseLines
     [take 20 textLine, drop 20 textLine @ [CHR 0x0A] @ take 5 resultLine, drop 5 resultLine]
   = [TextDelta ''hi'', TurnSucceeded [] None :: unit StreamMessage]"
proof -
  have whole: "concat [take 20 textLine, drop 20 textLine @ [CHR 0x0A] @ take 5 resultLine, drop 5 resultLine]
      = textLine @ CHR 0x0A # resultLine"
  proof -
    have "concat [take 20 textLine, drop 20 textLine @ [CHR 0x0A] @ take 5 resultLine, drop 5 resultLine]
        = (take 20 textLine @ drop 20 textLine) @ CHR 0x0A # (take 5 resultLine @ drop 5 resultLine)"
      by simp
    then show ?thesis by (simp only: append_take_drop_id)
  qed
  have single: "parsedObjects parseLines [textLine @ CHR 0x0A # resultLine]
      = [TextDelta ''hi'', TurnSucceeded [] None :: unit StreamMessage]"
    by (simp add: parsedObjects_def decodeStream_def onData_def flushBuffer_def processLine_def
        split_nl_line split_nl_last_line no_nl_lines parseLines_simps trim_lines)
  have eq: "parsedObjects (parseLines :: string \<Rightarrow> unit StreamMessage option)
        [take 20 textLine, drop 20 textLine @ [CHR 0x0A] @ take 5 resultLine, drop 5 resultLine]
      = parsedObjects parseLines
          [concat [take 20 textLine, drop 20 textLine @ [CHR 0x0A] @ take 5 resultLine, drop 5 resultLine]]"
    by (rule chunking_is_irrelevant [THEN conjunct2, THEN conjunct1])
  show ?thesis by (simp only: eq whole single)
qed

subsection \<open>Lines that are not JSON\<close>

lemma last_split_nl_no_nl: "CHR 0x0A \<notin> set (last (split_nl s))"
proof (induction s)
  case Nil
  show ?case by simp
next
  case (Cons c s)
  obtain l ls where sx: "split_nl s = l # ls"
    using split_nl_not_Nil [of s] by (cases "split_nl s") auto
  with Cons show ?case by (cases ls) auto
qed

lemma last_split_nl:
  assumes "a = [] \<or> last a = CHR 0x0A"
  shows "last (split_nl a) = []"
proof (cases "a = []")
  case True
  then show ?thesis by simp
next
  case False
  with assms have a: "a = butlast a @ [CHR 0x0A]"
    using append_butlast_last_id [of a] by simp
  have "split_nl (butlast a @ [CHR 0x0A])
      = butlast (split_nl (butlast a)) @ split_nl (last (split_nl (butlast a)) @ [CHR 0x0A])"
    by (rule split_nl_append)
  also have "split_nl (last (split_nl (butlast a)) @ [CHR 0x0A]) = [last (split_nl (butlast a)), []]"
    using split_nl_line [OF last_split_nl_no_nl, of "butlast a" "[]"] by simp
  finally have "last (split_nl (butlast a @ [CHR 0x0A])) = []" by simp
  with a show ?thesis by simp
qed

lemma foldl_skip:
  "f (foldl f s xs) b = foldl f s xs \<Longrightarrow> foldl f s (xs @ b # ys) = foldl f s (xs @ ys)"
  by simp

lemma onData_bad_line:
  assumes "prs bad = None" and "CHR 0x0A \<notin> set bad" and "a = [] \<or> last a = CHR 0x0A"
  shows "onData prs h (s, []) (a @ bad @ CHR 0x0A # b) = onData prs h (s, []) (a @ b)"
proof -
  have la: "last (split_nl a) = []" using assms(3) by (rule last_split_nl)
  have l1: "split_nl (a @ bad @ CHR 0x0A # b) = butlast (split_nl a) @ bad # split_nl b"
    using split_nl_append [of a "bad @ CHR 0x0A # b"] la split_nl_line [OF assms(2)] by simp
  have l2: "split_nl (a @ b) = butlast (split_nl a) @ split_nl b"
    using split_nl_append [of a b] la by simp
  have skip: "processLine prs h t bad = t" for t
    using assms(1) by (simp add: processLine_def)
  show ?thesis
    by (simp add: onData_def Let_def l1 l2 butlast_append split_nl_not_Nil skip)
qed

text \<open>
  Claim C8. A line \<open>bad\<close> on which \<open>JSON.parse\<close> throws changes nothing: not as a
  complete line, not as the remaining buffer. A stream with such a line between two
  newlines (or at its start) is decoded as the stream without it, in one chunk or cut in
  any way, and a turn reading it has the same effects as a turn reading the stream
  without it: no callback is added, \<open>onError\<close> included.
\<close>

theorem bad_line_is_discarded:
  assumes "prs bad = None" and "CHR 0x0A \<notin> set bad" and "a = [] \<or> last a = CHR 0x0A"
  shows "processLine prs h s bad = s
       \<and> flushBuffer prs h (s, bad) = s
       \<and> decodeStream prs h s [a @ bad @ CHR 0x0A # b] = decodeStream prs h s [a @ b]
       \<and> (concat chunks = a @ bad @ CHR 0x0A # b \<longrightarrow>
            parsedObjects prs chunks = parsedObjects prs [a @ b])
       \<and> (parse e = prs \<longrightarrow>
            runClaudeStreaming (e\<lparr>reads := [Data (a @ bad @ CHR 0x0A # b)]\<rparr>) reg msg cid sid
              = runClaudeStreaming (e\<lparr>reads := [Data (a @ b)]\<rparr>) reg msg cid sid)"
proof (intro conjI impI)
  show "processLine prs h s bad = s" using assms(1) by (simp add: processLine_def)
  show "flushBuffer prs h (s, bad) = s" using assms(1) by (simp add: flushBuffer_def)
  show "decodeStream prs h s [a @ bad @ CHR 0x0A # b] = decodeStream prs h s [a @ b]"
    by (simp add: decodeStream_def onData_bad_line [of prs bad a, OF assms])
next
  assume c: "concat chunks = a @ bad @ CHR 0x0A # b"
  have "parsedObjects prs chunks = parsedObjects prs [concat chunks]"
    unfolding parsedObjects_def decodeStream_def
    using chunks_as_one [of prs "\<lambda>acc m. acc @ [m]" "[]" chunks] by simp
  also have "\<dots> = parsedObjects prs [a @ b]"
    unfolding c by (simp add: parsedObjects_def decodeStream_def onData_bad_line [of prs bad a, OF assms])
  finally show "parsedObjects prs chunks = parsedObjects prs [a @ b]" .
next
  assume p: "parse e = prs"
  show "runClaudeStreaming (e\<lparr>reads := [Data (a @ bad @ CHR 0x0A # b)]\<rparr>) reg msg cid sid
          = runClaudeStreaming (e\<lparr>reads := [Data (a @ b)]\<rparr>) reg msg cid sid"
    by (simp add: runClaudeStreaming_def readStdout_def afterExit_def Let_def p
        onData_bad_line [of prs bad a, OF assms] split: stdin_result.splits read_end.splits)
qed


text \<open>
  A line of diagnostic text between two events, cut in the middle.
\<close>

theorem bad_line_is_discarded_witness:
  "parsedObjects parseLines
     [textLine @ [CHR 0x0A] @ take 4 noiseLine, drop 4 noiseLine @ [CHR 0x0A] @ resultLine @ [CHR 0x0A]]
   = [TextDelta ''hi'', TurnSucceeded [] None :: unit StreamMessage]"
proof -
  have hyps: "parseLines noiseLine = (None :: unit StreamMessage option)" "CHR 0x0A \<notin> set noiseLine"
    "textLine @ [CHR 0x0A] = [] \<or> last (textLine @ [CHR 0x0A]) = CHR 0x0A"
    by (simp_all add: parseLines_simps no_nl_lines)
  have whole: "concat [textLine @ [CHR 0x0A] @ take 4 noiseLine,
        drop 4 noiseLine @ [CHR 0x0A] @ resultLine @ [CHR 0x0A]]
      = (textLine @ [CHR 0x0A]) @ noiseLine @ CHR 0x0A # (resultLine @ [CHR 0x0A])"
  proof -
    have "concat [textLine @ [CHR 0x0A] @ take 4 noiseLine,
          drop 4 noiseLine @ [CHR 0x0A] @ resultLine @ [CHR 0x0A]]
        = (textLine @ [CHR 0x0A]) @ (take 4 noiseLine @ drop 4 noiseLine) @ CHR 0x0A # (resultLine @ [CHR 0x0A])"
      by simp
    then show ?thesis by (simp only: append_take_drop_id)
  qed
  have clean: "parsedObjects parseLines [(textLine @ [CHR 0x0A]) @ (resultLine @ [CHR 0x0A])]
      = [TextDelta ''hi'', TurnSucceeded [] None :: unit StreamMessage]"
    by (simp add: parsedObjects_def decodeStream_def onData_def flushBuffer_def processLine_def
        split_nl_line no_nl_lines parseLines_simps trim_lines trim_Nil)
  have "parsedObjects (parseLines :: string \<Rightarrow> unit StreamMessage option)
          [textLine @ [CHR 0x0A] @ take 4 noiseLine,
           drop 4 noiseLine @ [CHR 0x0A] @ resultLine @ [CHR 0x0A]]
      = parsedObjects parseLines [(textLine @ [CHR 0x0A]) @ (resultLine @ [CHR 0x0A])]"
    by (rule bad_line_is_discarded [of parseLines noiseLine "textLine @ [CHR 0x0A]", OF hyps,
          THEN conjunct2, THEN conjunct2, THEN conjunct2, THEN conjunct1, THEN mp, OF whole])
  with clean show ?thesis by (simp only:)
qed

section \<open>Release of resources\<close>
lemma dispatch_loop_effects:
  "list_all isLoopEffect (snd st) \<Longrightarrow> list_all isLoopEffect (snd (dispatch st m))"
  by (auto simp: dispatch_def Let_def list_all_iff split: prod.splits)

lemma processLine_loop_effects:
  "list_all isLoopEffect (snd st) \<Longrightarrow> list_all isLoopEffect (snd (processLine prs dispatch st l))"
  by (simp add: processLine_def dispatch_loop_effects split: option.splits)

lemma foldl_loop_effects:
  "list_all isLoopEffect (snd st) \<Longrightarrow>
   list_all isLoopEffect (snd (foldl (processLine prs dispatch) st ls))"
  by (induction ls arbitrary: st) (simp_all add: processLine_loop_effects)

lemma onData_loop_effects:
  "list_all isLoopEffect (snd (fst sb)) \<Longrightarrow>
   list_all isLoopEffect (snd (fst (onData prs dispatch sb c)))"
  by (simp add: onData_def Let_def foldl_loop_effects)

lemma readLoop_loop_effects:
  "list_all isLoopEffect (snd (fst sb)) \<Longrightarrow>
   list_all isLoopEffect (snd (fst (fst (readLoop prs kt p sb t evs))))"
proof (induction evs arbitrary: sb t)
  case Nil
  then show ?case by simp
next
  case (Cons ev evs)
  show ?case
  proof (cases ev)
    case (Data c)
    with Cons show ?thesis by (simp add: onData_loop_effects)
  next
    case TimerFires
    with Cons show ?thesis by simp
  qed
qed

lemma flushBuffer_loop_effects:
  "list_all isLoopEffect (snd (fst sb)) \<Longrightarrow>
   list_all isLoopEffect (snd (flushBuffer prs dispatch sb))"
  by (simp add: flushBuffer_def dispatch_loop_effects split: option.splits)

lemma readStdout_loop_effects: "list_all isLoopEffect (fst (readStdout e p session))"
proof -
  have "list_all isLoopEffect
      (snd (fst (fst (readLoop (parse e) (kill_throws e) p ((session, []), []) False (reads e)))))"
    by (rule readLoop_loop_effects) simp
  then show ?thesis
    by (cases "read_end e") (simp_all add: readStdout_def Let_def flushBuffer_loop_effects)
qed

lemma loop_effect_no_cleanup: "list_all isLoopEffect es \<Longrightarrow> filter isCleanup es = []"
proof (induction es)
  case Nil
  show ?case by simp
next
  case (Cons x es)
  then show ?case by (cases x) simp_all
qed

lemma loop_effect_not_reader:
  "list_all isLoopEffect es \<Longrightarrow> GetReader p \<notin> set es \<and> Spawn p \<notin> set es"
  by (auto simp: list_all_iff)

lemma evict_no_spawn: "Spawn p \<notin> set (snd (evictExisting kt reg cid))"
  by (simp add: evictExisting_def killExisting_def split: option.splits)

lemma sinceSpawn_skip:
  "Spawn p \<notin> set pre \<Longrightarrow> sinceSpawn p (pre @ Spawn p # rest) = rest"
proof -
  assume "Spawn p \<notin> set pre"
  then have "dropWhile (\<lambda>x. x \<noteq> Spawn p) (pre @ Spawn p # rest) = Spawn p # rest"
    by (induction pre) auto
  then show ?thesis by (simp add: sinceSpawn_def)
qed

text \<open>
  Claim C1, as the code has it. From the spawn of its process on, a turn whose write to
  stdin succeeded clears the timeout, releases the reader lock and deletes the entry of
  the conversation, each once and in that order, however the read loop ended: at the end
  of the stream, by a read error, with or without the timer firing. A turn whose write
  to stdin threw clears the timeout and deletes the entry, each once and in that order;
  it never took a reader, so it has no lock to release. In every case the map has no
  entry for the conversation when the turn is over, and \<open>cancelStream\<close> returns false.
\<close>

theorem release_on_every_exit:
  "filter isCleanup (sinceSpawn (spawned e) (snd (runClaudeStreaming (e :: 'i env) reg msg cid sid)))
     = (if stdin e = StdinOk
        then [ClearTimeout (spawned e), ReleaseLock (spawned e), RegistryDelete cid]
        else [ClearTimeout (spawned e), RegistryDelete cid])
   \<and> (GetReader (spawned e) \<in> set (snd (runClaudeStreaming e reg msg cid sid)) \<longleftrightarrow> stdin e = StdinOk)
   \<and> fst (runClaudeStreaming e reg msg cid sid) cid = None
   \<and> fst (cancelStream kt (fst (runClaudeStreaming e reg msg cid sid)) cid
            :: bool \<times> registry \<times> 'i effect list) = False"
proof -
  let ?p = "spawned e"
  let ?pre = "snd (evictExisting (kill_throws e) reg cid) :: 'i effect list"
  let ?rd = "readStdout e ?p (newSession ?p cid sid)"
  have none: "filter isCleanup (fst ?rd) = []"
    by (rule loop_effect_no_cleanup [OF readStdout_loop_effects])
  have noreader: "GetReader ?p \<notin> set (fst ?rd)"
    using loop_effect_not_reader [OF readStdout_loop_effects] by blast
  have noafter: "filter isCleanup (afterExit e ?p t) = []" "GetReader ?p \<notin> set (afterExit e ?p t)" for t
    by (simp_all add: afterExit_def)
  have noevict: "GetReader ?p \<notin> set ?pre"
    by (simp add: evictExisting_def killExisting_def split: option.splits)
  obtain rest where tr: "snd (runClaudeStreaming e reg msg cid sid) = ?pre @ Spawn ?p # rest"
    and rest: "rest = (case stdin e of
          StdinOk \<Rightarrow> [SetTimeout ?p, RegistrySet cid, StdinWrite ?p msg, StdinEnd ?p, GetReader ?p]
            @ fst ?rd @ [ClearTimeout ?p, ReleaseLock ?p, RegistryDelete cid] @ afterExit e ?p (snd ?rd)
        | WriteThrows err \<Rightarrow> [SetTimeout ?p, RegistrySet cid, StdinWrite ?p msg, ClearTimeout ?p,
            RegistryDelete cid, Callback (OnError (''Failed to send message: '' @ err)),
            Kill ?p (kill_throws e ?p)]
        | EndThrows err \<Rightarrow> [SetTimeout ?p, RegistrySet cid, StdinWrite ?p msg, StdinEnd ?p,
            ClearTimeout ?p, RegistryDelete cid,
            Callback (OnError (''Failed to send message: '' @ err)), Kill ?p (kill_throws e ?p)])"
    by (simp add: runClaudeStreaming_def Let_def split: stdin_result.splits)
  have a: "filter isCleanup (sinceSpawn ?p (snd (runClaudeStreaming e reg msg cid sid)))
     = (if stdin e = StdinOk
        then [ClearTimeout ?p, ReleaseLock ?p, RegistryDelete cid]
        else [ClearTimeout ?p, RegistryDelete cid])"
    unfolding tr sinceSpawn_skip [OF evict_no_spawn] rest
    by (cases "stdin e") (simp_all add: none noafter)
  have b: "GetReader ?p \<in> set (snd (runClaudeStreaming e reg msg cid sid)) \<longleftrightarrow> stdin e = StdinOk"
    unfolding tr rest using noevict noreader noafter(2)
    by (cases "stdin e") simp_all
  have c: "fst (runClaudeStreaming e reg msg cid sid) cid = None"
    by (simp add: runClaudeStreaming_def Let_def split: stdin_result.splits)
  then have d: "fst (cancelStream kt (fst (runClaudeStreaming e reg msg cid sid)) cid
            :: bool \<times> registry \<times> 'i effect list) = False"
    by (simp add: cancelStream_def)
  from a b c d show ?thesis by blast
qed


text \<open>
  A turn whose timer fires and whose read then throws, and a turn whose write throws.
\<close>

theorem release_on_every_exit_witness:
  "filter isCleanup (sinceSpawn 7 (snd (runClaudeStreaming
       (quietEnv\<lparr>reads := [Data ''x'', TimerFires], read_end := ReadError ''EIO''\<rparr> :: unit env)
       Map.empty ''hello'' ''c'' None)))
     = [ClearTimeout 7, ReleaseLock 7, RegistryDelete ''c'']
   \<and> filter isCleanup (sinceSpawn 7 (snd (runClaudeStreaming
       (quietEnv\<lparr>stdin := WriteThrows ''EPIPE''\<rparr> :: unit env) Map.empty ''hello'' ''c'' None)))
     = [ClearTimeout 7, RegistryDelete ''c'']
   \<and> fst (cancelStream (\<lambda>p. False) (fst (runClaudeStreaming
       (quietEnv\<lparr>reads := [Data ''x'', TimerFires], read_end := ReadError ''EIO''\<rparr> :: unit env)
       Map.empty ''hello'' ''c'' None)) ''c'' :: bool \<times> registry \<times> unit effect list) = False"
  using release_on_every_exit [of "quietEnv\<lparr>reads := [Data ''x'', TimerFires], read_end := ReadError ''EIO''\<rparr> :: unit env"
      Map.empty "''hello''" "''c''" None "\<lambda>p. False"]
    release_on_every_exit [of "quietEnv\<lparr>stdin := WriteThrows ''EPIPE''\<rparr> :: unit env"
      Map.empty "''hello''" "''c''" None "\<lambda>p. False"]
  by (simp add: quietEnv_def)

text \<open>
  Claim C1 as stated fails when the write to stdin throws: no reader lock is released on
  that path.
\<close>

theorem write_failure_counterexample:
  "ReleaseLock 7 \<notin> set (snd (runClaudeStreaming
       (quietEnv\<lparr>stdin := WriteThrows ''EPIPE''\<rparr> :: unit env) Map.empty ''hello'' ''c'' None))
   \<and> filter isCleanup (sinceSpawn 7 (snd (runClaudeStreaming
       (quietEnv\<lparr>stdin := WriteThrows ''EPIPE''\<rparr> :: unit env) Map.empty ''hello'' ''c'' None)))
     \<noteq> [ClearTimeout 7, ReleaseLock 7, RegistryDelete ''c'']"
  by (simp add: runClaudeStreaming_def quietEnv_def evictExisting_def sinceSpawn_def Let_def)

section \<open>One session per conversation\<close>

text \<open>
  When the map of active sessions has an entry for the conversation, the first four
  effects of a turn are: the prior session's timeout cleared, its process killed (whether
  or not the call threw), its entry deleted, and then the new process spawned. At the
  spawn the map has no entry for the conversation, and the turn spawns once.
\<close>

lemma eviction_before_spawn:
  assumes "reg cid = Some old"
  shows "take 4 (snd (runClaudeStreaming (e :: 'i env) reg msg cid sid))
           = [ClearTimeout (clearTimeout old), Kill (process old) (kill_throws e (process old)),
              RegistryDelete cid, Spawn (spawned e)]
       \<and> fst (evictExisting (kill_throws e) reg cid :: registry \<times> 'i effect list) cid = None
       \<and> length (filter (\<lambda>x. x = Spawn (spawned e)) (snd (runClaudeStreaming e reg msg cid sid))) = 1"
proof -
  let ?p = "spawned e"
  let ?rd = "readStdout e ?p (newSession ?p cid sid)"
  have loop: "filter (\<lambda>x. x = Spawn ?p) (fst ?rd) = []"
    using loop_effect_not_reader [OF readStdout_loop_effects, of ?p e ?p "newSession ?p cid sid"]
    by (auto simp: filter_empty_conv)
  have a: "take 4 (snd (runClaudeStreaming e reg msg cid sid))
           = [ClearTimeout (clearTimeout old), Kill (process old) (kill_throws e (process old)),
              RegistryDelete cid, Spawn (spawned e)]"
    using assms
    by (simp add: runClaudeStreaming_def evictExisting_def killExisting_def Let_def
        split: stdin_result.splits)
  have b: "fst (evictExisting (kill_throws e) reg cid :: registry \<times> 'i effect list) cid = None"
    using assms by (simp add: evictExisting_def killExisting_def)
  have c: "length (filter (\<lambda>x. x = Spawn ?p) (snd (runClaudeStreaming e reg msg cid sid))) = 1"
    using assms loop
    by (simp add: runClaudeStreaming_def evictExisting_def killExisting_def afterExit_def Let_def
        split: stdin_result.splits)
  from a b c show ?thesis by blast
qed

section \<open>Terminal callbacks\<close>
lemma callbacksOf_append: "callbacksOf (xs @ ys) = callbacksOf xs @ callbacksOf ys"
  by (induction xs rule: callbacksOf.induct) simp_all

lemma callbacksOf_Callbacks: "callbacksOf (map Callback cs) = cs"
  by (induction cs) simp_all

lemma terminalCalls_append: "terminalCalls (xs @ ys) = terminalCalls xs @ terminalCalls ys"
  by (simp add: terminalCalls_def callbacksOf_append)

lemma terminalCalls_Callbacks: "terminalCalls (map Callback cs) = filter isTerminal cs"
  by (simp add: terminalCalls_def callbacksOf_Callbacks)

lemma no_terminal_block: "filter isTerminal (snd (handleBlock s b :: StreamSession \<times> 'i callback list)) = []"
  by (simp add: handleBlock_def endPendingTool_def Let_def split: option.splits prod.splits)

lemma no_terminal_blocks: "filter isTerminal (snd (handleBlocks s bs :: StreamSession \<times> 'i callback list)) = []"
proof (induction bs arbitrary: s)
  case Nil
  show ?case by simp
next
  case (Cons b bs)
  obtain s1 cs1 where b: "handleBlock s b = (s1, cs1 :: 'i callback list)" by fastforce
  obtain s2 cs2 where bs: "handleBlocks s1 bs = (s2, cs2 :: 'i callback list)" by fastforce
  from b have "filter isTerminal cs1 = []"
    using no_terminal_block [where ?'i = 'i, of s b] by simp
  moreover from bs have "filter isTerminal cs2 = []"
    using Cons.IH [of s1] by simp
  ultimately show ?case using b bs by (simp add: Let_def)
qed

lemma one_terminal_per_result:
  "length (filter isTerminal (snd (handleStreamMessage s m :: StreamSession \<times> 'i callback list)))
     = (if msg_type m = ''result'' then 1 else 0)"
  by (auto simp: handleStreamMessage_def endPendingTool_def Let_def no_terminal_blocks
      split: option.splits content.splits prod.splits)

lemma dispatch_terminal:
  "length (terminalCalls (snd (dispatch st m)))
     = length (terminalCalls (snd st)) + (if msg_type m = ''result'' then 1 else 0)"
proof -
  obtain s1 cs where h: "handleStreamMessage (fst st) m = (s1, cs :: 'a callback list)" by fastforce
  from h have "length (filter isTerminal cs) = (if msg_type m = ''result'' then 1 else 0)"
    using one_terminal_per_result [where ?'i = 'a, of "fst st" m] by simp
  with h show ?thesis
    by (simp add: dispatch_def terminalCalls_append terminalCalls_Callbacks)
qed

lemma processLine_terminal:
  "length (terminalCalls (snd (processLine prs dispatch st l)))
     = length (terminalCalls (snd st)) + (if isResultLine prs l then 1 else 0)"
  by (simp add: processLine_def isResultLine_def dispatch_terminal split: option.splits)

lemma foldl_terminal:
  "length (terminalCalls (snd (foldl (processLine prs dispatch) st ls)))
     = length (terminalCalls (snd st)) + length (filter (isResultLine prs) ls)"
  by (induction ls arbitrary: st) (simp_all add: processLine_terminal)

lemma flushBuffer_processLine: "flushBuffer prs h sb = processLine prs h (fst sb) (snd sb)"
  by (simp add: flushBuffer_def processLine_def)


lemma readLoop_terminal:
  assumes "CHR 0x0A \<notin> set (snd sb)"
  shows "length (terminalCalls (snd (fst (fst (readLoop prs kt p sb t evs)))))
           = length (terminalCalls (snd (fst sb)))
             + length (filter (isResultLine prs) (butlast (split_nl (snd sb @ dataOf evs))))
             + (if \<not> t \<and> TimerFires \<in> set evs then 1 else 0)
       \<and> snd (fst (readLoop prs kt p sb t evs)) = last (split_nl (snd sb @ dataOf evs))
       \<and> snd (readLoop prs kt p sb t evs) = (t \<or> TimerFires \<in> set evs)"
  using assms
proof (induction evs arbitrary: sb t)
  case Nil
  then show ?case by (simp add: split_nl_last_line)
next
  case (Cons ev evs)
  show ?case
  proof (cases ev)
    case (Data c)
    let ?sb = "onData prs dispatch sb c"
    have buf: "snd ?sb = last (split_nl (snd sb @ c))" by (simp add: onData_def Let_def)
    have nonl: "CHR 0x0A \<notin> set (snd ?sb)" unfolding buf by (rule last_split_nl_no_nl)
    have n1: "length (terminalCalls (snd (fst ?sb)))
        = length (terminalCalls (snd (fst sb)))
          + length (filter (isResultLine prs) (butlast (split_nl (snd sb @ c))))"
      by (simp add: onData_def Let_def foldl_terminal)
    have sp: "split_nl (snd sb @ c @ dataOf evs)
        = butlast (split_nl (snd sb @ c)) @ split_nl (snd ?sb @ dataOf evs)"
      unfolding buf using split_nl_append [of "snd sb @ c" "dataOf evs"] by simp
    from Cons.IH [OF nonl, of t] n1 Data show ?thesis
      by (simp add: sp butlast_append split_nl_not_Nil)
  next
    case TimerFires
    show ?thesis
    proof (cases t)
      case True
      with Cons.IH [OF Cons.prems, of t] TimerFires show ?thesis by simp
    next
      case False
      let ?sb = "((fst (fst sb), snd (fst sb) @ [Callback (OnError ''Request timed out''), Kill p (kt p)]),
                  snd sb)"
      have nonl: "CHR 0x0A \<notin> set (snd ?sb)" using Cons.prems by simp
      have n1: "length (terminalCalls (snd (fst ?sb))) = length (terminalCalls (snd (fst sb))) + 1"
        by (simp add: terminalCalls_append) (simp add: terminalCalls_def)
      from Cons.IH [OF nonl, of True] n1 False TimerFires show ?thesis by simp
    qed
  qed
qed

lemma filter_butlast_le: "length (filter P (butlast xs)) \<le> length (filter P xs)"
  by (induction xs) auto

lemma filter_butlast_last:
  "xs \<noteq> [] \<Longrightarrow> length (filter P xs) = length (filter P (butlast xs)) + (if P (last xs) then 1 else 0)"
  by (induction xs) auto

lemma readStdout_terminal:
  "length (terminalCalls (fst (readStdout e p session)))
     = (case read_end e of
          Done \<Rightarrow> length (resultLines e) + (if TimerFires \<in> set (reads e) then 1 else 0)
        | ReadError err \<Rightarrow>
            length (filter (isResultLine (parse e)) (butlast (split_nl (dataOf (reads e))))) + 1)"
proof -
  let ?r = "readLoop (parse e) (kill_throws e) p ((session, []), []) False (reads e)"
  have loop: "length (terminalCalls (snd (fst (fst ?r))))
        = length (filter (isResultLine (parse e)) (butlast (split_nl (dataOf (reads e)))))
          + (if TimerFires \<in> set (reads e) then 1 else 0)"
    "snd (fst ?r) = last (split_nl (dataOf (reads e)))"
    "snd ?r = (TimerFires \<in> set (reads e))"
    using readLoop_terminal [of "((session, []), [])" "parse e" "kill_throws e" p False "reads e"]
    by (simp_all add: terminalCalls_def)
  show ?thesis
  proof (cases "read_end e")
    case Done
    have "length (terminalCalls (snd (flushBuffer (parse e) dispatch (fst ?r))))
        = length (terminalCalls (snd (fst (fst ?r))))
          + (if isResultLine (parse e) (snd (fst ?r)) then 1 else 0)"
      by (simp add: flushBuffer_processLine processLine_terminal)
    with loop Done show ?thesis
      using filter_butlast_last [OF split_nl_not_Nil, of "isResultLine (parse e)" "dataOf (reads e)"]
      by (simp add: readStdout_def Let_def resultLines_def)
  next
    case (ReadError err)
    with loop show ?thesis
      by (simp add: readStdout_def Let_def terminalCalls_append) (simp add: terminalCalls_def)
  qed
qed

lemma turn_terminal:
  "length (terminalCalls (snd (runClaudeStreaming e reg msg cid sid)))
     = (case stdin e of
          StdinOk \<Rightarrow> length (terminalCalls (fst (readStdout e (spawned e) (newSession (spawned e) cid sid))))
        | WriteThrows err \<Rightarrow> 1
        | EndThrows err \<Rightarrow> 1)"
proof -
  have pre: "callbacksOf (snd (evictExisting (kill_throws e) reg cid) :: 'a effect list) = []"
    by (simp add: evictExisting_def killExisting_def split: option.splits)
  have post: "callbacksOf (afterExit e (spawned e) t) = []" for t
    by (simp add: afterExit_def)
  show ?thesis
    by (cases "stdin e")
      (simp_all add: runClaudeStreaming_def Let_def terminalCalls_def callbacksOf_append pre post)
qed

section \<open>The turn as a whole\<close>

text \<open>
  What the read loop does with a stream that it reads to its end is what
  \<open>handleStreamMessage\<close> does with the parsed objects of the stream, one after the other:
  the callbacks of a turn are those of \<open>handleAll\<close> on a new session, and the route
  applies its own callbacks to them and then persists.
\<close>

lemma processLine_foldl:
  "foldl (processLine prs h) s ls
     = foldl h s (List.map_filter (\<lambda>l. if trim l = [] then None else prs l) ls)"
proof (induction ls arbitrary: s)
  case Nil
  show ?case by (simp add: List.map_filter_simps)
next
  case (Cons l ls)
  then show ?case
    by (simp add: processLine_def List.map_filter_simps split: option.splits)
qed

lemma decodeStream_lines:
  "decodeStream prs h s chunks = foldl (processLine prs h) s (split_nl (concat chunks))"
proof -
  have "decodeStream prs h s chunks = decodeStream prs h s [concat chunks]"
    unfolding decodeStream_def using chunks_as_one [of prs h s chunks] by simp
  also have "\<dots> = processLine prs h
        (foldl (processLine prs h) s (butlast (split_nl (concat chunks))))
        (last (split_nl (concat chunks)))"
    by (simp add: decodeStream_def onData_def Let_def flushBuffer_processLine)
  also have "\<dots> = foldl (processLine prs h) s
        (butlast (split_nl (concat chunks)) @ [last (split_nl (concat chunks))])"
    by simp
  finally show ?thesis by (simp add: split_nl_not_Nil)
qed

lemma collect_foldl: "foldl (\<lambda>acc m. acc @ [m]) acc ms = acc @ ms"
  by (induction ms arbitrary: acc) simp_all

lemma parsedObjects_lines:
  "parsedObjects prs chunks
     = List.map_filter (\<lambda>l. if trim l = [] then None else prs l) (split_nl (concat chunks))"
  by (simp add: parsedObjects_def decodeStream_lines processLine_foldl collect_foldl)

lemma decodeStream_parsedObjects:
  "decodeStream prs h s chunks = foldl h s (parsedObjects prs chunks)"
  by (simp add: decodeStream_lines processLine_foldl parsedObjects_lines)

lemma dispatch_foldl:
  "foldl dispatch (s, es) ms
     = (fst (handleAll s ms), es @ map Callback (snd (handleAll s ms)))"
proof (induction ms arbitrary: s es)
  case Nil
  show ?case by simp
next
  case (Cons m ms)
  obtain s1 cs1 where m: "handleStreamMessage s m = (s1, cs1 :: 'a callback list)" by fastforce
  obtain s2 cs2 where ms: "handleAll s1 ms = (s2, cs2 :: 'a callback list)" by fastforce
  have "foldl dispatch (s, es) (m # ms) = foldl dispatch (s1, es @ map Callback cs1) ms"
    using m by (simp add: dispatch_def)
  also have "\<dots> = (fst (handleAll s1 ms), (es @ map Callback cs1) @ map Callback (snd (handleAll s1 ms)))"
    by (rule Cons.IH)
  finally show ?case using m ms by (simp add: Let_def)
qed

lemma turn_effects:
  assumes "stdin e = StdinOk" and "read_end e = Done" and "reads e = map Data chunks"
  shows "snd (runClaudeStreaming e reg msg cid sid)
           = snd (evictExisting (kill_throws e) reg cid)
             @ [Spawn (spawned e), SetTimeout (spawned e), RegistrySet cid,
                StdinWrite (spawned e) msg, StdinEnd (spawned e), GetReader (spawned e)]
             @ map Callback (snd (handleAll (newSession (spawned e) cid sid) (parsedObjects (parse e) chunks)))
             @ [ClearTimeout (spawned e), ReleaseLock (spawned e), RegistryDelete cid]
             @ afterExit e (spawned e) False"
proof -
  let ?s = "newSession (spawned e) cid sid"
  have loop: "readLoop (parse e) (kill_throws e) (spawned e) ((?s, []), []) False (reads e)
      = (foldl (onData (parse e) dispatch) ((?s, []), []) chunks, False)"
    unfolding assms(3) by (rule readLoop_data)
  have dec: "flushBuffer (parse e) dispatch (foldl (onData (parse e) dispatch) ((?s, []), []) chunks)
      = (fst (handleAll ?s (parsedObjects (parse e) chunks)),
         map Callback (snd (handleAll ?s (parsedObjects (parse e) chunks))))"
    using decodeStream_parsedObjects [of "parse e" dispatch "(?s, [])" chunks]
      dispatch_foldl [of ?s "[]" "parsedObjects (parse e) chunks"]
    by (simp add: decodeStream_def)
  show ?thesis
    using assms(1,2) by (simp add: runClaudeStreaming_def readStdout_def Let_def loop dec)
qed

lemma turn_callbacks:
  assumes "stdin e = StdinOk" and "read_end e = Done" and "reads e = map Data chunks"
  shows "callbacksOf (snd (runClaudeStreaming e reg msg cid sid))
           = snd (handleAll (newSession (spawned e) cid sid) (parsedObjects (parse e) chunks))"
proof -
  have pre: "callbacksOf (snd (evictExisting (kill_throws e) reg cid) :: 'a effect list) = []"
    by (simp add: evictExisting_def killExisting_def split: option.splits)
  have post: "callbacksOf (afterExit e (spawned e) t) = []" for t
    by (simp add: afterExit_def)
  show ?thesis
    unfolding turn_effects [OF assms]
    by (simp add: callbacksOf_append callbacksOf_Callbacks pre post)
qed


subsection \<open>The concrete streams\<close>

lemma turn_lines_no_nl:
  "CHR 0x0A \<notin> set (sessionLine ''s1'')" "CHR 0x0A \<notin> set (sessionLine ''s2'')"
  "CHR 0x0A \<notin> set (textLineOf ''a'')" "CHR 0x0A \<notin> set (textLineOf ''b'')"
  "CHR 0x0A \<notin> set (toolLineOf ''Bash'')"
  by (simp_all add: sessionLine_def textLineOf_def toolLineOf_def)

lemma turn_lines_trim:
  "trim (sessionLine ''s1'') \<noteq> []" "trim (sessionLine ''s2'') \<noteq> []"
  "trim (textLineOf ''a'') \<noteq> []" "trim (textLineOf ''b'') \<noteq> []"
  "trim (toolLineOf ''Bash'') \<noteq> []"
  by (simp_all add: trim_def js_ws_def sessionLine_def textLineOf_def toolLineOf_def)

lemma parseTurn_simps:
  "parseTurn (sessionLine ''s1'') = Some (SessionEstablished ''s1'')"
  "parseTurn (sessionLine ''s2'') = Some (SessionEstablished ''s2'')"
  "parseTurn (textLineOf ''a'') = Some (TextDelta ''a'')"
  "parseTurn (toolLineOf ''Bash'') = Some (ToolInvoked ''Bash'')"
  "parseTurn (textLineOf ''b'') = Some (TextDelta ''b'')"
  "parseTurn resultLine = Some (TurnSucceeded [] None)"
  by (simp_all add: parseTurn_def sessionLine_def textLineOf_def toolLineOf_def resultLine_def)

lemmas line_facts = split_nl_line split_nl_last_line no_nl_lines turn_lines_no_nl trim_lines
  turn_lines_trim trim_Nil parseTurn_simps List.map_filter_simps

lemma tool_turn_objects:
  "parsedObjects parseTurn
     [textLineOf ''a'' @ [CHR 0x0A] @ toolLineOf ''Bash'' @ [CHR 0x0A],
      textLineOf ''b'' @ [CHR 0x0A] @ resultLine @ [CHR 0x0A]]
   = [TextDelta ''a'', ToolInvoked ''Bash'', TextDelta ''b'', TurnSucceeded [] None]"
  by (simp add: parsedObjects_lines line_facts)

lemma tool_prefix_objects:
  "parsedObjects parseTurn [textLineOf ''a'' @ [CHR 0x0A] @ toolLineOf ''Bash'' @ [CHR 0x0A]]
   = [TextDelta ''a'', ToolInvoked ''Bash'']"
  by (simp add: parsedObjects_lines line_facts)

lemma session_turn_objects:
  "parsedObjects parseTurn
     [sessionLine ''s1'' @ [CHR 0x0A] @ textLineOf ''a'' @ [CHR 0x0A],
      sessionLine ''s2'' @ [CHR 0x0A] @ resultLine @ [CHR 0x0A]]
   = [SessionEstablished ''s1'', TextDelta ''a'', SessionEstablished ''s2''] @ [TurnSucceeded [] None]"
  by (simp add: parsedObjects_lines line_facts)


subsection \<open>A turn with a tool call\<close>

lemma response_of_turn:
  assumes "stdin e = StdinOk" and "read_end e = Done" and "reads e = map Data chunks"
  shows "snd (snd (handleStreamingResponse e S db_ok gen reg msg conv uid))
     = (let r = applyCallbacks S (conv_id conv) initialState
                  (snd (handleAll (newSession (spawned e) (conv_id conv) (conv_claudeSessionId conv))
                         (parsedObjects (parse e) chunks)))
        in if truthy (result_error (state_result (fst r))) then map Sse (snd r)
           else map Sse (snd r) @ fst (persistStreamResult db_ok gen conv uid (fst r))
                @ (if snd (persistStreamResult db_ok gen conv uid (fst r)) then []
                   else [Sse (Error ''Failed to store response'')]))"
proof -
  obtain reg1 es where t: "runClaudeStreaming e reg msg (conv_id conv) (conv_claudeSessionId conv) = (reg1, es)"
    by fastforce
  have cb: "snd (handleAll (newSession (spawned e) (conv_id conv) (conv_claudeSessionId conv))
                   (parsedObjects (parse e) chunks)) = callbacksOf es"
    using turn_callbacks [OF assms, of reg msg "conv_id conv" "conv_claudeSessionId conv"] t by simp
  obtain st evs where a: "applyCallbacks S (conv_id conv) initialState (callbacksOf es) = (st, evs)"
    by fastforce
  obtain outs fine where p: "persistStreamResult db_ok gen conv uid st = (outs, fine)"
    by fastforce
  show ?thesis
    unfolding cb using t a p by (simp add: handleStreamingResponse_def Let_def)
qed

lemma four_event_callbacks:
  "snd (handleAll (newSession p cid sid)
          [TextDelta ''a'', ToolInvoked ''Bash'', TextDelta ''b'', TurnSucceeded [] None])
     = [OnChunk ''a'', OnSegmentEnd ''a'', OnToolStart ''Bash'', OnToolEnd ''Bash'',
        OnChunk ''b'', OnComplete [] sid None]"
  by (simp add: sig_defs handle_defs newSession_def trim_def js_ws_def Let_def)

lemma two_event_callbacks:
  "snd (handleAll (newSession p cid sid) [TextDelta ''a'', ToolInvoked ''Bash''])
     = [OnChunk ''a'', OnSegmentEnd ''a'', OnToolStart ''Bash'']"
  by (simp add: sig_defs handle_defs newSession_def trim_def js_ws_def Let_def)

text \<open>
  Claim C4, as the code has it. A turn that reads, in any chunks, a stream whose parsed
  objects are the events carrying TextDelta a, ToolInvoked Bash, TextDelta b and
  TurnSucceeded with an empty result calls the callbacks in the order chunk a,
  segment_end a, tool_start Bash, tool_end Bash, chunk b, complete. No segment_end is
  called for b. A turn whose stream has only the first two events calls chunk a,
  segment_end a, tool_start Bash: no tool_end before the text b arrives. The route sends
  the six events in that order and then, the database accepting every call, stores two
  assistant messages, a and then b, the second taken from the current segment; a title
  update and the push notification follow.
\<close>

theorem tool_interleaving_order:
  assumes "stdin e = StdinOk" and "read_end e = Done" and "reads e = map Data chunks"
    and "parsedObjects (parse e) chunks
           = [TextDelta ''a'', ToolInvoked ''Bash'', TextDelta ''b'', TurnSucceeded [] None]"
  shows "callbacksOf (snd (runClaudeStreaming e reg msg cid sid))
           = [OnChunk ''a'', OnSegmentEnd ''a'', OnToolStart ''Bash'', OnToolEnd ''Bash'',
              OnChunk ''b'', OnComplete [] sid None]
       \<and> (stdin f = StdinOk \<longrightarrow> read_end f = Done \<longrightarrow> reads f = map Data pieces \<longrightarrow>
            parsedObjects (parse f) pieces = [TextDelta ''a'', ToolInvoked ''Bash''] \<longrightarrow>
            callbacksOf (snd (runClaudeStreaming f reg msg cid sid))
              = [OnChunk ''a'', OnSegmentEnd ''a'', OnToolStart ''Bash''])
       \<and> snd (snd (handleStreamingResponse e S (\<lambda>c. True) gen reg msg conv uid))
           = map Sse [Chunk ''a'', SegmentEnd (conv_id conv) ''a'', ToolStart ''Bash'', ToolEnd ''Bash'',
                      Chunk ''b'', Complete (conv_id conv)]
             @ [Db (CreateMessage (conv_id conv) ''assistant'' ''a''),
                Db (CreateMessage (conv_id conv) ''assistant'' ''b'')]
             @ (if truthy gen
                then [Db (UpdateConversationTitle (conv_id conv) (the gen)),
                      Sse (TitleUpdate (conv_id conv) (the gen))]
                else [])
             @ [Push uid (''a'' @ [CHR 0x0A] @ ''b'')]"
proof (intro conjI impI)
  show "callbacksOf (snd (runClaudeStreaming e reg msg cid sid))
           = [OnChunk ''a'', OnSegmentEnd ''a'', OnToolStart ''Bash'', OnToolEnd ''Bash'',
              OnChunk ''b'', OnComplete [] sid None]"
    unfolding turn_callbacks [OF assms(1-3)] assms(4) by (rule four_event_callbacks)
next
  assume f: "stdin f = StdinOk" "read_end f = Done" "reads f = map Data pieces"
    and two: "parsedObjects (parse f) pieces = [TextDelta ''a'', ToolInvoked ''Bash'']"
  show "callbacksOf (snd (runClaudeStreaming f reg msg cid sid))
          = [OnChunk ''a'', OnSegmentEnd ''a'', OnToolStart ''Bash'']"
    unfolding turn_callbacks [OF f] two by (rule two_event_callbacks)
next
  have st: "applyCallbacks S (conv_id conv) initialState
        [OnChunk ''a'', OnSegmentEnd ''a'', OnToolStart ''Bash'', OnToolEnd ''Bash'',
         OnChunk ''b'', OnComplete [] (conv_claudeSessionId conv) None]
      = (\<lparr>segments = [''a''], state_currentSegment = ''b'',
          state_result = \<lparr>result_sessionId = conv_claudeSessionId conv,
                           result_permissionDenials = None, result_error = None\<rparr>\<rparr>,
         [Chunk ''a'', SegmentEnd (conv_id conv) ''a'', ToolStart ''Bash'', ToolEnd ''Bash'',
          Chunk ''b'', Complete (conv_id conv)])"
    by (simp add: chat_defs initialState_def trim_def js_ws_def Let_def)
  show "snd (snd (handleStreamingResponse e S (\<lambda>c. True) gen reg msg conv uid))
           = map Sse [Chunk ''a'', SegmentEnd (conv_id conv) ''a'', ToolStart ''Bash'', ToolEnd ''Bash'',
                      Chunk ''b'', Complete (conv_id conv)]
             @ [Db (CreateMessage (conv_id conv) ''assistant'' ''a''),
                Db (CreateMessage (conv_id conv) ''assistant'' ''b'')]
             @ (if truthy gen
                then [Db (UpdateConversationTitle (conv_id conv) (the gen)),
                      Sse (TitleUpdate (conv_id conv) (the gen))]
                else [])
             @ [Push uid (''a'' @ [CHR 0x0A] @ ''b'')]"
    unfolding response_of_turn [OF assms(1-3)] assms(4) four_event_callbacks st
    by (cases gen) (simp_all add: persistStreamResult_def generateAndUpdateTitle_def Let_def trim_def js_ws_def)
qed


lemma tool_turn_env:
  "stdin (quietEnv\<lparr>parse := prs, reads := map Data chunks\<rparr>) = StdinOk"
  "read_end (quietEnv\<lparr>parse := prs, reads := map Data chunks\<rparr>) = Done"
  "reads (quietEnv\<lparr>parse := prs, reads := map Data chunks\<rparr>) = map Data chunks"
  "parse (quietEnv\<lparr>parse := prs, reads := map Data chunks\<rparr>) = prs"
  "spawned (quietEnv\<lparr>parse := prs, reads := map Data chunks\<rparr>) = 7"
  by (simp_all add: quietEnv_def)

text \<open>
  The four lines in two chunks, and the first two lines alone.
\<close>

theorem tool_interleaving_order_witness:
  "callbacksOf (snd (runClaudeStreaming
      (quietEnv\<lparr>parse := parseTurn,
         reads := map Data [textLineOf ''a'' @ [CHR 0x0A] @ toolLineOf ''Bash'' @ [CHR 0x0A],
                            textLineOf ''b'' @ [CHR 0x0A] @ resultLine @ [CHR 0x0A]]\<rparr> :: unit env)
      Map.empty ''hello'' ''c'' None))
     = [OnChunk ''a'', OnSegmentEnd ''a'', OnToolStart ''Bash'', OnToolEnd ''Bash'',
        OnChunk ''b'', OnComplete [] None None]
   \<and> callbacksOf (snd (runClaudeStreaming
      (quietEnv\<lparr>parse := parseTurn,
         reads := map Data [textLineOf ''a'' @ [CHR 0x0A] @ toolLineOf ''Bash'' @ [CHR 0x0A]]\<rparr> :: unit env)
      Map.empty ''hello'' ''c'' None))
     = [OnChunk ''a'', OnSegmentEnd ''a'', OnToolStart ''Bash'']
   \<and> snd (snd (handleStreamingResponse
      (quietEnv\<lparr>parse := parseTurn,
         reads := map Data [textLineOf ''a'' @ [CHR 0x0A] @ toolLineOf ''Bash'' @ [CHR 0x0A],
                            textLineOf ''b'' @ [CHR 0x0A] @ resultLine @ [CHR 0x0A]]\<rparr> :: unit env)
      (\<lambda>j. []) (\<lambda>c. True) None Map.empty ''hello''
      \<lparr>conv_id = ''c'', conv_claudeSessionId = None, conv_title = None\<rparr> ''u''))
     = [Sse (Chunk ''a''), Sse (SegmentEnd ''c'' ''a''), Sse (ToolStart ''Bash''), Sse (ToolEnd ''Bash''),
        Sse (Chunk ''b''), Sse (Complete ''c''),
        Db (CreateMessage ''c'' ''assistant'' ''a''), Db (CreateMessage ''c'' ''assistant'' ''b''),
        Push ''u'' (''a'' @ [CHR 0x0A] @ ''b'')]"
proof -
  let ?full = "[textLineOf ''a'' @ [CHR 0x0A] @ toolLineOf ''Bash'' @ [CHR 0x0A],
                textLineOf ''b'' @ [CHR 0x0A] @ resultLine @ [CHR 0x0A]]"
  let ?half = "[textLineOf ''a'' @ [CHR 0x0A] @ toolLineOf ''Bash'' @ [CHR 0x0A]]"
  let ?e = "quietEnv\<lparr>parse := parseTurn, reads := map Data ?full\<rparr> :: unit env"
  let ?f = "quietEnv\<lparr>parse := parseTurn, reads := map Data ?half\<rparr> :: unit env"
  have four: "parsedObjects (parse ?e) ?full
      = [TextDelta ''a'', ToolInvoked ''Bash'', TextDelta ''b'', TurnSucceeded [] None]"
    unfolding tool_turn_env by (rule tool_turn_objects)
  have two: "parsedObjects (parse ?f) ?half = [TextDelta ''a'', ToolInvoked ''Bash'']"
    unfolding tool_turn_env by (rule tool_prefix_objects)
  note t = tool_interleaving_order [OF tool_turn_env(1) tool_turn_env(2) tool_turn_env(3) four,
      where reg = Map.empty and msg = "''hello''" and cid = "''c''" and sid = None and f = ?f
      and pieces = ?half and S = "\<lambda>j. []" and gen = None
      and conv = "\<lparr>conv_id = ''c'', conv_claudeSessionId = None, conv_title = None\<rparr>" and uid = "''u''"]
  from t have a: "callbacksOf (snd (runClaudeStreaming ?e Map.empty ''hello'' ''c'' None))
     = [OnChunk ''a'', OnSegmentEnd ''a'', OnToolStart ''Bash'', OnToolEnd ''Bash'',
        OnChunk ''b'', OnComplete [] None None]" by (rule conjunct1)
  from t [THEN conjunct2, THEN conjunct1, THEN mp, THEN mp, THEN mp, THEN mp,
      OF tool_turn_env(1) tool_turn_env(2) tool_turn_env(3) two]
  have b: "callbacksOf (snd (runClaudeStreaming ?f Map.empty ''hello'' ''c'' None))
     = [OnChunk ''a'', OnSegmentEnd ''a'', OnToolStart ''Bash'']" .
  from t [THEN conjunct2, THEN conjunct2]
  have c: "snd (snd (handleStreamingResponse ?e (\<lambda>j. []) (\<lambda>c. True) None Map.empty ''hello''
      \<lparr>conv_id = ''c'', conv_claudeSessionId = None, conv_title = None\<rparr> ''u''))
     = [Sse (Chunk ''a''), Sse (SegmentEnd ''c'' ''a''), Sse (ToolStart ''Bash''), Sse (ToolEnd ''Bash''),
        Sse (Chunk ''b''), Sse (Complete ''c''),
        Db (CreateMessage ''c'' ''assistant'' ''a''), Db (CreateMessage ''c'' ''assistant'' ''b''),
        Push ''u'' (''a'' @ [CHR 0x0A] @ ''b'')]" by simp
  from a b c show ?thesis by (intro conjI)
qed

text \<open>
  Claim C4 as stated fails: the order with segment_end b before complete is not the order
  of the callbacks of the turn, nor that of the events sent.
\<close>

theorem final_segment_end_counterexample:
  "callbacksOf (snd (runClaudeStreaming
      (quietEnv\<lparr>parse := parseTurn,
         reads := map Data [textLineOf ''a'' @ [CHR 0x0A] @ toolLineOf ''Bash'' @ [CHR 0x0A],
                            textLineOf ''b'' @ [CHR 0x0A] @ resultLine @ [CHR 0x0A]]\<rparr> :: unit env)
      Map.empty ''hello'' ''c'' None))
     \<noteq> [OnChunk ''a'', OnSegmentEnd ''a'', OnToolStart ''Bash'', OnToolEnd ''Bash'',
         OnChunk ''b'', OnSegmentEnd ''b'', OnComplete [] None None]
   \<and> snd (handleAll (newSession 7 ''c'' None)
         [TextDelta ''a'', ToolInvoked ''Bash'', TextDelta ''b'', TurnSucceeded [] None :: unit StreamMessage])
     \<noteq> [OnChunk ''a'', OnSegmentEnd ''a'', OnToolStart ''Bash'', OnToolEnd ''Bash'',
         OnChunk ''b'', OnSegmentEnd ''b'', OnComplete [] None None]
   \<and> snd (applyCallbacks (\<lambda>j::unit. []) ''c'' initialState
         (snd (handleAll (newSession 7 ''c'' None)
            [TextDelta ''a'', ToolInvoked ''Bash'', TextDelta ''b'', TurnSucceeded [] None])))
     \<noteq> [Chunk ''a'', SegmentEnd ''c'' ''a'', ToolStart ''Bash'', ToolEnd ''Bash'', Chunk ''b'',
         SegmentEnd ''c'' ''b'', Complete ''c'']"
proof -
  let ?full = "[textLineOf ''a'' @ [CHR 0x0A] @ toolLineOf ''Bash'' @ [CHR 0x0A],
                textLineOf ''b'' @ [CHR 0x0A] @ resultLine @ [CHR 0x0A]]"
  let ?e = "quietEnv\<lparr>parse := parseTurn, reads := map Data ?full\<rparr> :: unit env"
  have "callbacksOf (snd (runClaudeStreaming ?e Map.empty ''hello'' ''c'' None))
      = [OnChunk ''a'', OnSegmentEnd ''a'', OnToolStart ''Bash'', OnToolEnd ''Bash'',
         OnChunk ''b'', OnComplete [] None None]"
    unfolding turn_callbacks [OF tool_turn_env(1) tool_turn_env(2) tool_turn_env(3)] tool_turn_env
      tool_turn_objects
    by (rule four_event_callbacks)
  then have a: "callbacksOf (snd (runClaudeStreaming ?e Map.empty ''hello'' ''c'' None))
     \<noteq> [OnChunk ''a'', OnSegmentEnd ''a'', OnToolStart ''Bash'', OnToolEnd ''Bash'',
         OnChunk ''b'', OnSegmentEnd ''b'', OnComplete [] None None]" by simp
  have b: "snd (handleAll (newSession 7 ''c'' None)
         [TextDelta ''a'', ToolInvoked ''Bash'', TextDelta ''b'', TurnSucceeded [] None :: unit StreamMessage])
     \<noteq> [OnChunk ''a'', OnSegmentEnd ''a'', OnToolStart ''Bash'', OnToolEnd ''Bash'',
         OnChunk ''b'', OnSegmentEnd ''b'', OnComplete [] None None]"
    unfolding four_event_callbacks by simp
  have c: "snd (applyCallbacks (\<lambda>j::unit. []) ''c'' initialState
         (snd (handleAll (newSession 7 ''c'' None)
            [TextDelta ''a'', ToolInvoked ''Bash'', TextDelta ''b'', TurnSucceeded [] None])))
     \<noteq> [Chunk ''a'', SegmentEnd ''c'' ''a'', ToolStart ''Bash'', ToolEnd ''Bash'', Chunk ''b'',
         SegmentEnd ''c'' ''b'', Complete ''c'']"
    unfolding four_event_callbacks
    by (simp add: chat_defs initialState_def trim_def js_ws_def Let_def)
  from a b c show ?thesis by (intro conjI)
qed


subsection \<open>The session id a turn delivers\<close>

lemma mostRecentInit_isInit: "mostRecentInit ms = Some m \<Longrightarrow> isInit m"
proof -
  assume a: "mostRecentInit ms = Some m"
  then obtain x xs where f: "filter isInit ms = x # xs" and m: "m = last (x # xs)"
    by (auto simp: mostRecentInit_def split: list.splits)
  have "last (x # xs) \<in> set (x # xs)" by (rule last_in_set) simp
  with f m have "m \<in> set (filter isInit ms)" by simp
  then show ?thesis by simp
qed

lemma observed_changed_nonempty:
  assumes "observedSessionId sid ms = Some x" and "Some x \<noteq> sid"
  shows "x \<noteq> []"
proof (cases "mostRecentInit ms")
  case None
  with assms show ?thesis by (simp add: observedSessionId_def)
next
  case (Some m)
  from mostRecentInit_isInit [OF Some] have "truthy (session_id m)" by (simp add: isInit_def)
  with Some assms(1) show ?thesis by (auto simp: observedSessionId_def)
qed

lemma complete_is_stored:
  "state_result (fst (applyCallbacks S cid st (cs @ [OnComplete res sid pd])))
     = \<lparr>result_sessionId = sid,
        result_permissionDenials = map_option (deduplicatePermissionDenials S) pd,
        result_error = None\<rparr>"
  by (simp add: applyCallbacks_append onComplete_def Let_def split: prod.splits)

text \<open>
  Claim C10. A turn reads, in any chunks, a stream whose parsed objects are the events
  \<open>ms\<close> followed by a result event whose \<open>is_error\<close> is not true. Its last callback
  is \<open>onComplete\<close>, with the session id of the most recent system/init event among
  \<open>ms\<close> that carries one, or else the caller's \<open>claudeSessionId\<close>. The route then
  calls \<open>updateClaudeSessionId\<close> with a value exactly when that value is the one
  delivered and it differs from the conversation's token. A system/init event carries a
  session id when the field is present and not empty.
\<close>

theorem delivered_session_id:
  assumes "stdin e = StdinOk" and "read_end e = Done" and "reads e = map Data chunks"
    and "parsedObjects (parse e) chunks = ms @ [r]"
    and "msg_type r = ''result''" and "is_error r \<noteq> Some True"
  shows "callbacksOf (snd (runClaudeStreaming e reg msg cid sid))
           = snd (handleAll (newSession (spawned e) cid sid) ms)
             @ map OnToolEnd (pendingTool (fst (handleAll (newSession (spawned e) cid sid) ms)))
             @ [OnComplete (or_else (result r) []) (observedSessionId sid ms)
                  (case permission_denials r of None \<Rightarrow> None | Some ds \<Rightarrow> if ds = [] then None else Some ds)]
       \<and> (Db (UpdateClaudeSessionId cv x)
             \<in> set (snd (snd (handleStreamingResponse e S db_ok gen reg msg conv uid)))
           \<longleftrightarrow> cv = conv_id conv \<and> observedSessionId (conv_claudeSessionId conv) ms = Some x
               \<and> Some x \<noteq> conv_claudeSessionId conv)"
proof (intro conjI)
  have ev: "snd (handleAll (newSession p c t) (ms @ [r]))
      = snd (handleAll (newSession p c t) ms)
        @ map OnToolEnd (pendingTool (fst (handleAll (newSession p c t) ms)))
        @ [OnComplete (or_else (result r) []) (observedSessionId t ms)
             (case permission_denials r of None \<Rightarrow> None | Some ds \<Rightarrow> if ds = [] then None else Some ds)]"
    for p c t
    using session_id_of_events [OF assms(5,6), THEN conjunct1, of "newSession p c t" ms]
    by (simp add: newSession_def)
  show "callbacksOf (snd (runClaudeStreaming e reg msg cid sid))
           = snd (handleAll (newSession (spawned e) cid sid) ms)
             @ map OnToolEnd (pendingTool (fst (handleAll (newSession (spawned e) cid sid) ms)))
             @ [OnComplete (or_else (result r) []) (observedSessionId sid ms)
                  (case permission_denials r of None \<Rightarrow> None | Some ds \<Rightarrow> if ds = [] then None else Some ds)]"
    unfolding turn_callbacks [OF assms(1-3)] assms(4) by (rule ev)
  let ?s = "newSession (spawned e) (conv_id conv) (conv_claudeSessionId conv)"
  let ?sid = "observedSessionId (conv_claudeSessionId conv) ms"
  let ?pd = "(case permission_denials r of None \<Rightarrow> None | Some ds \<Rightarrow> if ds = [] then None else Some ds)"
  let ?r = "applyCallbacks S (conv_id conv) initialState
      (snd (handleAll ?s ms) @ map OnToolEnd (pendingTool (fst (handleAll ?s ms)))
       @ [OnComplete (or_else (result r) []) ?sid ?pd])"
  have res: "state_result (fst ?r)
      = \<lparr>result_sessionId = ?sid,
         result_permissionDenials = map_option (deduplicatePermissionDenials S) ?pd,
         result_error = None\<rparr>"
    using complete_is_stored [of S "conv_id conv" initialState
        "snd (handleAll ?s ms) @ map OnToolEnd (pendingTool (fst (handleAll ?s ms)))"
        "or_else (result r) []" ?sid ?pd]
    by simp
  have noerr: "\<not> truthy (result_error (state_result (fst ?r)))"
    unfolding res by simp
  have outs: "snd (snd (handleStreamingResponse e S db_ok gen reg msg conv uid))
      = map Sse (snd ?r) @ fst (persistStreamResult db_ok gen conv uid (fst ?r))
        @ (if snd (persistStreamResult db_ok gen conv uid (fst ?r)) then []
           else [Sse (Error ''Failed to store response'')])"
    unfolding response_of_turn [OF assms(1-3)] assms(4) ev Let_def
    using noerr by (simp only: if_False)
  have "Db (UpdateClaudeSessionId cv x)
             \<in> set (snd (snd (handleStreamingResponse e S db_ok gen reg msg conv uid)))
      \<longleftrightarrow> Db (UpdateClaudeSessionId cv x) \<in> set (fst (persistStreamResult db_ok gen conv uid (fst ?r)))"
    unfolding outs by auto
  also have "\<dots> \<longleftrightarrow> cv = conv_id conv \<and> result_sessionId (state_result (fst ?r)) = Some x \<and> x \<noteq> []
      \<and> result_sessionId (state_result (fst ?r)) \<noteq> conv_claudeSessionId conv"
    by (rule session_id_of_events [OF assms(5,6), THEN conjunct2, THEN conjunct2, THEN conjunct2])
  also have "\<dots> \<longleftrightarrow> cv = conv_id conv \<and> ?sid = Some x \<and> Some x \<noteq> conv_claudeSessionId conv"
    unfolding res using observed_changed_nonempty [of "conv_claudeSessionId conv" ms x] by auto
  finally show "Db (UpdateClaudeSessionId cv x)
             \<in> set (snd (snd (handleStreamingResponse e S db_ok gen reg msg conv uid)))
           \<longleftrightarrow> cv = conv_id conv \<and> observedSessionId (conv_claudeSessionId conv) ms = Some x
               \<and> Some x \<noteq> conv_claudeSessionId conv" .
qed


text \<open>
  Two system/init events in a conversation whose token is \<open>old\<close>: the second one's
  session id is delivered and stored.
\<close>

theorem delivered_session_id_witness:
  "callbacksOf (snd (runClaudeStreaming
      (quietEnv\<lparr>parse := parseTurn,
         reads := map Data [sessionLine ''s1'' @ [CHR 0x0A] @ textLineOf ''a'' @ [CHR 0x0A],
                            sessionLine ''s2'' @ [CHR 0x0A] @ resultLine @ [CHR 0x0A]]\<rparr> :: unit env)
      Map.empty ''hello'' ''c'' (Some ''old'')))
     = [OnChunk ''a'', OnComplete [] (Some ''s2'') None]
   \<and> Db (UpdateClaudeSessionId ''c'' ''s2'')
       \<in> set (snd (snd (handleStreamingResponse
             (quietEnv\<lparr>parse := parseTurn,
                reads := map Data [sessionLine ''s1'' @ [CHR 0x0A] @ textLineOf ''a'' @ [CHR 0x0A],
                                   sessionLine ''s2'' @ [CHR 0x0A] @ resultLine @ [CHR 0x0A]]\<rparr> :: unit env)
             (\<lambda>j. []) (\<lambda>c. True) None Map.empty ''hello''
             \<lparr>conv_id = ''c'', conv_claudeSessionId = Some ''old'', conv_title = None\<rparr> ''u'')))"
proof -
  let ?chunks = "[sessionLine ''s1'' @ [CHR 0x0A] @ textLineOf ''a'' @ [CHR 0x0A],
                  sessionLine ''s2'' @ [CHR 0x0A] @ resultLine @ [CHR 0x0A]]"
  let ?e = "quietEnv\<lparr>parse := parseTurn, reads := map Data ?chunks\<rparr> :: unit env"
  let ?ms = "[SessionEstablished ''s1'', TextDelta ''a'', SessionEstablished ''s2''] :: unit StreamMessage list"
  let ?conv = "\<lparr>conv_id = ''c'', conv_claudeSessionId = Some ''old'', conv_title = None\<rparr>"
  have objs: "parsedObjects (parse ?e) ?chunks = ?ms @ [TurnSucceeded [] None]"
    unfolding tool_turn_env by (rule session_turn_objects)
  have r: "msg_type (TurnSucceeded [] None :: unit StreamMessage) = ''result''"
    and ok: "is_error (TurnSucceeded [] None :: unit StreamMessage) \<noteq> Some True"
    by (simp_all add: TurnSucceeded_def)
  have obs: "observedSessionId (Some ''old'') ?ms = Some ''s2''"
    by (simp add: observedSessionId_def mostRecentInit_def isInit_def SessionEstablished_def sig_defs)
  note t = delivered_session_id [OF tool_turn_env(1) tool_turn_env(2) tool_turn_env(3) objs r ok,
      where reg = Map.empty and msg = "''hello''" and cid = "''c''" and sid = "Some ''old''"
      and cv = "''c''" and x = "''s2''" and S = "\<lambda>j. []" and db_ok = "\<lambda>c. True" and gen = None
      and conv = ?conv and uid = "''u''"]
  from t [THEN conjunct1]
  have a: "callbacksOf (snd (runClaudeStreaming ?e Map.empty ''hello'' ''c'' (Some ''old'')))
     = [OnChunk ''a'', OnComplete [] (Some ''s2'') None]"
    unfolding obs
    by (simp add: tool_turn_env SessionEstablished_def sig_defs handle_defs pendingTool_def
        newSession_def Let_def)
  from t [THEN conjunct2]
  have b: "Db (UpdateClaudeSessionId ''c'' ''s2'')
       \<in> set (snd (snd (handleStreamingResponse ?e (\<lambda>j. []) (\<lambda>c. True) None Map.empty ''hello''
             ?conv ''u'')))"
    by (simp add: obs)
  from a b show ?thesis by (intro conjI)
qed

subsection \<open>A timeout after the result\<close>

lemma trim_hi: "trim ''hi'' = ''hi''"
  by (simp add: trim_def js_ws_def)

text \<open>
  Claim C2 does not hold of the code. A turn reads a text event and a result event, and
  the timer fires before the stream ends: \<open>onComplete\<close> is called and then
  \<open>onError\<close>. The client is sent complete and then error, and nothing is stored:
  without the timer the same stream stores the assistant message. A read error after the
  result event likewise calls \<open>onError\<close> after \<open>onComplete\<close>.
\<close>

theorem result_then_timeout_reports_twice:
  "terminalCalls (snd (runClaudeStreaming
      (quietEnv\<lparr>reads := [Data (textLine @ [CHR 0x0A] @ resultLine @ [CHR 0x0A]), TimerFires]\<rparr> :: unit env)
      Map.empty ''hello'' ''c'' None))
     = [OnComplete [] None None, OnError ''Request timed out'']
   \<and> snd (snd (handleStreamingResponse
      (quietEnv\<lparr>reads := [Data (textLine @ [CHR 0x0A] @ resultLine @ [CHR 0x0A]), TimerFires]\<rparr> :: unit env)
      (\<lambda>j. []) (\<lambda>c. True) None Map.empty ''hello''
      \<lparr>conv_id = ''c'', conv_claudeSessionId = None, conv_title = None\<rparr> ''u''))
     = [Sse (Chunk ''hi''), Sse (Complete ''c''), Sse (Error ''Request timed out'')]
   \<and> snd (snd (handleStreamingResponse
      (quietEnv\<lparr>reads := [Data (textLine @ [CHR 0x0A] @ resultLine @ [CHR 0x0A])]\<rparr> :: unit env)
      (\<lambda>j. []) (\<lambda>c. True) None Map.empty ''hello''
      \<lparr>conv_id = ''c'', conv_claudeSessionId = None, conv_title = None\<rparr> ''u''))
     = [Sse (Chunk ''hi''), Sse (Complete ''c''), Db (CreateMessage ''c'' ''assistant'' ''hi''),
        Push ''u'' ''hi'']
   \<and> terminalCalls (snd (runClaudeStreaming
      (quietEnv\<lparr>reads := [Data (textLine @ [CHR 0x0A] @ resultLine @ [CHR 0x0A])],
                read_end := ReadError ''EIO''\<rparr> :: unit env)
      Map.empty ''hello'' ''c'' None))
     = [OnComplete [] None None, OnError ''Stream read error: EIO'']"
  by (simp add: handleStreamingResponse_def runClaudeStreaming_def readStdout_def afterExit_def
      evictExisting_def quietEnv_def newSession_def Let_def
      onData_def flushBuffer_def processLine_def split_nl_line no_nl_lines parseLines_simps trim_lines
      trim_Nil dispatch_def handle_defs sig_defs
      terminalCalls_def chat_defs initialState_def persistStreamResult_def generateAndUpdateTitle_def
      trim_hi)

subsection \<open>An evicted turn and its successor\<close>

text \<open>A schedule of one turn alone is \<open>runClaudeStreaming\<close>.\<close>

lemma interleave_one_turn:
  "stdin e = StdinOk \<Longrightarrow>
     interleave reg [Begins e msg cid sid, LeavesLoop e cid sid] = runClaudeStreaming e reg msg cid sid"
  "stdin e \<noteq> StdinOk \<Longrightarrow>
     interleave reg [Begins e msg cid sid] = runClaudeStreaming e reg msg cid sid"
  by (cases "stdin e";
      simp add: beginTurn_def finallyBlock_def runClaudeStreaming_def Let_def)+

text \<open>
  Claim C3 does not hold of the code when turns overlap. Three turns start for one
  conversation. The second evicts the first and is registered. The first, its process
  killed, leaves its read loop, and its \<open>finally\<close> block deletes the entry of the
  conversation, which is the second turn's. The third turn then finds no entry, kills
  nothing and spawns: processes 2 and 3 are both spawned and neither is killed.
\<close>

theorem evicted_turn_deletes_successor_entry:
  "fst (interleave Map.empty
        [Begins (quietEnv\<lparr>spawned := 1, exit_code := 143\<rparr> :: unit env) ''one'' ''c'' None,
         Begins (quietEnv\<lparr>spawned := 2\<rparr>) ''two'' ''c'' None]) ''c''
     = Some (newSession 2 ''c'' None)
   \<and> fst (interleave Map.empty
        [Begins (quietEnv\<lparr>spawned := 1, exit_code := 143\<rparr> :: unit env) ''one'' ''c'' None,
         Begins (quietEnv\<lparr>spawned := 2\<rparr>) ''two'' ''c'' None,
         LeavesLoop (quietEnv\<lparr>spawned := 1, exit_code := 143\<rparr>) ''c'' None]) ''c''
     = None
   \<and> snd (interleave Map.empty
        [Begins (quietEnv\<lparr>spawned := 1, exit_code := 143\<rparr> :: unit env) ''one'' ''c'' None,
         Begins (quietEnv\<lparr>spawned := 2\<rparr>) ''two'' ''c'' None,
         LeavesLoop (quietEnv\<lparr>spawned := 1, exit_code := 143\<rparr>) ''c'' None,
         Begins (quietEnv\<lparr>spawned := 3\<rparr>) ''three'' ''c'' None])
     = [Spawn 1, SetTimeout 1, RegistrySet ''c'', StdinWrite 1 ''one'', StdinEnd 1, GetReader 1,
        ClearTimeout 1, Kill 1 False, RegistryDelete ''c'',
        Spawn 2, SetTimeout 2, RegistrySet ''c'', StdinWrite 2 ''two'', StdinEnd 2, GetReader 2,
        ClearTimeout 1, ReleaseLock 1, RegistryDelete ''c'', ReadStderr 1, ReleaseStderrLock 1,
        Spawn 3, SetTimeout 3, RegistrySet ''c'', StdinWrite 3 ''three'', StdinEnd 3, GetReader 3]
   \<and> notKilled (snd (interleave Map.empty
        [Begins (quietEnv\<lparr>spawned := 1, exit_code := 143\<rparr> :: unit env) ''one'' ''c'' None,
         Begins (quietEnv\<lparr>spawned := 2\<rparr>) ''two'' ''c'' None,
         LeavesLoop (quietEnv\<lparr>spawned := 1, exit_code := 143\<rparr>) ''c'' None,
         Begins (quietEnv\<lparr>spawned := 3\<rparr>) ''three'' ''c'' None])) []
     = [2, 3]"
  by (simp add: beginTurn_def finallyBlock_def evictExisting_def killExisting_def readStdout_def
      afterExit_def flushBuffer_def quietEnv_def newSession_def trim_Nil Let_def)

end
